theory Spec2Isabelle
  imports Main
begin

section \<open>Python text primitives used by the server\<close>

text \<open>
  Command texts are modelled as \<open>string\<close>, one \<open>char\<close> per character, for ASCII
  text. The non-ASCII glyphs of the server's own message literals are written as their
  UTF-8 bytes. A byte above 127 is left alone by \<open>lower\<close> and is neither whitespace nor a
  word character here.
\<close>

abbreviation nl :: string where
  "nl \<equiv> [CHR 0x0A]"

abbreviation quote :: string where
  "quote \<equiv> [CHR 0x27]"

text \<open>
  What \<open>str.strip()\<close> removes and what \<open>\s\<close> matches on a \<open>str\<close>: tab, line feed,
  vertical tab, form feed, carriage return, the separators 0x1C to 0x1F, and space.
\<close>

definition is_space :: "char \<Rightarrow> bool" where
  "is_space c = (let n = (of_char c :: nat) in (9 \<le> n \<and> n \<le> 13) \<or> (28 \<le> n \<and> n \<le> 32))"

text \<open>What \<open>\w\<close> matches: digits, letters and the underscore.\<close>

definition is_word :: "char \<Rightarrow> bool" where
  "is_word c = (let n = (of_char c :: nat) in
     (48 \<le> n \<and> n \<le> 57) \<or> (65 \<le> n \<and> n \<le> 90) \<or> n = 95 \<or> (97 \<le> n \<and> n \<le> 122))"

definition is_upper :: "char \<Rightarrow> bool" where
  "is_upper c = (let n = (of_char c :: nat) in 65 \<le> n \<and> n \<le> 90)"

text \<open>An upper-case ASCII letter and its lower-case form differ in bit 5 only (value 32).\<close>

fun lower_char :: "char \<Rightarrow> char" where
  "lower_char (Char b0 b1 b2 b3 b4 b5 b6 b7) =
     (if is_upper (Char b0 b1 b2 b3 b4 b5 b6 b7) then Char b0 b1 b2 b3 b4 True b6 b7
      else Char b0 b1 b2 b3 b4 b5 b6 b7)"

definition lower :: "string \<Rightarrow> string" where
  "lower s = map lower_char s"

definition strip :: "string \<Rightarrow> string" where
  "strip s = rev (dropWhile is_space (rev (dropWhile is_space s)))"

text \<open>\<open>s.startswith(p)\<close>\<close>

fun startswith :: "string \<Rightarrow> string \<Rightarrow> bool" where
  "startswith s [] = True"
| "startswith [] (d # ds) = False"
| "startswith (c # s) (d # ds) = (c = d \<and> startswith s ds)"

text \<open>\<open>sub in s\<close>\<close>

fun contains :: "string \<Rightarrow> string \<Rightarrow> bool" where
  "contains [] sub = (sub = [])"
| "contains (c # s) sub = (startswith (c # s) sub \<or> contains s sub)"

text \<open>\<open>s.split('\n')\<close> and \<open>'\n'.join(ls)\<close>\<close>

fun split_lines :: "string \<Rightarrow> string list" where
  "split_lines [] = [[]]"
| "split_lines (c # s) =
     (if c = CHR 0x0A then [] # split_lines s
      else (case split_lines s of [] \<Rightarrow> [[c]] | l # ls \<Rightarrow> (c # l) # ls))"

fun join_lines :: "string list \<Rightarrow> string" where
  "join_lines [] = []"
| "join_lines [l] = l"
| "join_lines (l # ls) = l @ nl @ join_lines ls"

text \<open>Truth value of an optional string: \<open>None\<close> and \<open>''\<close> are falsy.\<close>

fun truthy :: "string option \<Rightarrow> bool" where
  "truthy None = False"
| "truthy (Some s) = (s \<noteq> [])"

text \<open>\<open>a or b\<close> on optional strings, and \<open>str(x)\<close> as an f-string prints it.\<close>

definition py_or :: "string option \<Rightarrow> string option \<Rightarrow> string option" where
  "py_or a b = (if truthy a then a else b)"

fun str_opt :: "string option \<Rightarrow> string" where
  "str_opt None = ''None''"
| "str_opt (Some s) = s"

fun get_or :: "'a option \<Rightarrow> 'a \<Rightarrow> 'a" where
  "get_or None d = d"
| "get_or (Some v) d = v"

fun str_nat :: "nat \<Rightarrow> string" where
  "str_nat n = (if n < 10 then [''0123456789'' ! n] else str_nat (n div 10) @ [''0123456789'' ! (n mod 10)])"

definition str_int :: "int \<Rightarrow> string" where
  "str_int i = (if i < 0 then ''-'' @ str_nat (nat (- i)) else str_nat (nat i))"

section \<open>Regular expressions of the pattern catalogue\<close>

text \<open>
  The catalogue uses literals, \<open>\b\<close>, \<open>.*\<close>, \<open>\s*\<close>, \<open>[rf]+\<close> and groups of literal
  alternatives. A character class matches one character; \<open>.\<close> matches anything but a line
  feed (no DOTALL flag is given).
\<close>

datatype cclass = Lit char | AnyChar | OneOf string | Space

datatype regex = Str string | Ch cclass | WordB | Star cclass | Plus cclass | Alt "string list"

fun in_class :: "cclass \<Rightarrow> char \<Rightarrow> bool" where
  "in_class (Lit d) c = (c = d)"
| "in_class AnyChar c = (c \<noteq> CHR 0x0A)"
| "in_class (OneOf ds) c = (c \<in> set ds)"
| "in_class Space c = is_space c"

text \<open>
  A position in the subject: the character before it (if any) and the rest of the text.
  \<open>\b\<close> holds where exactly one side is a word character; the ends of the text count as
  non-word.
\<close>

type_synonym pos = "char option \<times> string"

fun at_boundary :: "pos \<Rightarrow> bool" where
  "at_boundary (None, []) = False"
| "at_boundary (None, c # s) = is_word c"
| "at_boundary (Some p, []) = is_word p"
| "at_boundary (Some p, c # s) = (is_word p \<noteq> is_word c)"

fun eat :: "string \<Rightarrow> pos \<Rightarrow> pos option" where
  "eat [] q = Some q"
| "eat (d # ds) (p, []) = None"
| "eat (d # ds) (p, c # s) = (if c = d then eat ds (Some c, s) else None)"

text \<open>Every position a starred class can stop at (backtracking explores all of them).\<close>

fun star :: "cclass \<Rightarrow> pos \<Rightarrow> pos list" where
  "star k (p, []) = [(p, [])]"
| "star k (p, c # s) = (p, c # s) # (if in_class k c then star k (Some c, s) else [])"

text \<open>The positions one regex item can lead to from a position.\<close>

fun step :: "regex \<Rightarrow> pos \<Rightarrow> pos list" where
  "step (Str l) q = (case eat l q of None \<Rightarrow> [] | Some q' \<Rightarrow> [q'])"
| "step (Ch k) (p, []) = []"
| "step (Ch k) (p, c # s) = (if in_class k c then [(Some c, s)] else [])"
| "step WordB q = (if at_boundary q then [q] else [])"
| "step (Star k) q = star k q"
| "step (Plus k) (p, []) = []"
| "step (Plus k) (p, c # s) = (if in_class k c then star k (Some c, s) else [])"
| "step (Alt ls) q = concat (map (\<lambda>l. case eat l q of None \<Rightarrow> [] | Some q' \<Rightarrow> [q']) ls)"

fun run :: "regex list \<Rightarrow> pos list \<Rightarrow> pos list" where
  "run [] qs = qs"
| "run (r # rs) qs = (if qs = [] then [] else run rs (concat (map (step r) qs)))"

definition match_at :: "regex list \<Rightarrow> pos \<Rightarrow> bool" where
  "match_at rs q = (run rs [q] \<noteq> [])"

fun starts :: "pos \<Rightarrow> pos list" where
  "starts (p, []) = [(p, [])]"
| "starts (p, c # s) = (p, c # s) # starts (Some c, s)"

text \<open>\<open>re.search(pattern, s)\<close> as a truth value: some start position has a match.\<close>

definition re_search :: "regex list \<Rightarrow> string \<Rightarrow> bool" where
  "re_search rs s = list_ex (match_at rs) (starts (None, s))"

section \<open>The command classifier (server.py)\<close>

definition DESTRUCTIVE_PATTERNS :: "regex list list" where
  "DESTRUCTIVE_PATTERNS = [
     [WordB, Str ''rm'', WordB, Star AnyChar, Str ''-'', Plus (OneOf ''rf'')],
     [WordB, Str ''rm'', WordB, Star AnyChar, Str ''/''],
     [WordB, Str ''dd'', WordB],
     [WordB, Str ''mkfs'', WordB],
     [WordB, Str ''format'', WordB],
     [WordB, Str ''fdisk'', WordB],
     [WordB, Str ''parted'', WordB],
     [WordB, Str ''cryptsetup'', WordB, Star AnyChar, Str ''luksFormat''],
     [WordB, Str '':>'', Star Space, Str ''/''],
     [WordB, Str ''shred'', WordB],
     [WordB, Str ''wipefs'', WordB],
     [WordB, Str ''>'', Star Space, Str ''/dev/''],
     [WordB, Str ''chmod'', WordB, Star AnyChar, Str ''777''],
     [WordB, Str ''chown'', WordB],
     [WordB, Str ''kill'', WordB, Star AnyChar, Str ''-9''],
     [WordB, Str ''killall'', WordB],
     [WordB, Str ''pkill'', WordB],
     [WordB, Str ''systemctl'', WordB, Star AnyChar, Alt [''stop'', ''disable'', ''mask'', ''restart'']],
     [WordB, Str ''service'', WordB, Star AnyChar, Alt [''stop'', ''disable'', ''restart'']],
     [WordB, Str ''apt-get'', WordB, Star AnyChar, Alt [''remove'', ''purge'', ''autoremove'']],
     [WordB, Str ''apt'', WordB, Star AnyChar, Alt [''remove'', ''purge'', ''autoremove'']],
     [WordB, Str ''yum'', WordB, Star AnyChar, Alt [''remove'', ''erase'']],
     [WordB, Str ''dnf'', WordB, Star AnyChar, Alt [''remove'', ''erase'']],
     [WordB, Str ''pacman'', WordB, Star AnyChar, Str ''-R''],
     [WordB, Str ''snap'', WordB, Star AnyChar, Str ''remove''],
     [WordB, Str ''docker'', WordB, Star AnyChar, Alt [''rm'', ''rmi'', ''system prune'']],
     [WordB, Str ''iptables'', WordB, Star AnyChar, Str ''-F''],
     [WordB, Str ''ufw'', WordB, Star AnyChar, Str ''disable''],
     [WordB, Str ''init'', WordB, Star AnyChar, Str ''0''],
     [WordB, Str ''shutdown'', WordB],
     [WordB, Str ''reboot'', WordB],
     [WordB, Str ''halt'', WordB],
     [WordB, Str ''poweroff'', WordB],
     [WordB, Str ''userdel'', WordB],
     [WordB, Str ''usermod'', WordB],
     [WordB, Str ''groupdel'', WordB],
     [WordB, Str ''mv'', WordB, Star AnyChar, Str ''/''],
     [WordB, Str ''truncate'', WordB],
     [WordB, Str ''crontab'', WordB, Star AnyChar, Str ''-r'']
   ]"

definition is_destructive_command :: "string \<Rightarrow> bool" where
  "is_destructive_command command =
     (let command_lower = strip (lower command)
      in list_ex (\<lambda>pattern. re_search pattern command_lower) DESTRUCTIVE_PATTERNS)"

text \<open>
  The literal that a signature starts with, after its leading \<open>\b\<close>: every signature of the
  catalogue has one.
\<close>

fun keyword_of :: "regex list \<Rightarrow> string" where
  "keyword_of (WordB # Str k # rs) = k"
| "keyword_of rs = []"

definition signature_keywords :: "string list" where
  "signature_keywords = map keyword_of DESTRUCTIVE_PATTERNS"

section \<open>Host profiles and the transport\<close>

text \<open>
  An entry of \<open>SSH_HOSTS\<close>. The code indexes \<open>config['hostname']\<close> and reads every
  other key with \<open>get\<close>, so only the hostname is required.
\<close>

record host_config =
  cfg_hostname :: string
  cfg_port :: "int option"
  cfg_username :: "string option"
  cfg_password :: "string option"
  cfg_description :: "string option"

type_synonym ssh_hosts = "string \<Rightarrow> host_config option"

text \<open>
  The paramiko side is a trace of the calls made on client objects. A client object is
  a handle; \<open>NewClient\<close> is \<open>paramiko.SSHClient()\<close>, \<open>Connect\<close> is \<open>client.connect\<close>
  (always with timeout 10, look_for_keys and allow_agent off), \<open>ExecCommand\<close> is
  \<open>client.exec_command(line, timeout=30, get_pty=...)\<close>, which opens a channel, and
  \<open>StdinWrite\<close> is the write to that channel's input.
\<close>

type_synonym handle = nat

datatype event =
    NewClient handle
  | Connect handle string int string string
  | Close handle
  | ExecCommand handle string bool
  | StdinWrite handle string

text \<open>
  What the remote side answers, given the trace so far: whether \<open>client.connect\<close>
  raises (with which message), whether \<open>exec_command\<close> raises, and how the command ends:
  an exception while writing, waiting or reading, or exit status, stdout and stderr
  (already decoded; decoding never raises with \<open>errors='replace'\<close>).
\<close>

record remote =
  connect_fails :: "event list \<Rightarrow> handle \<Rightarrow> string \<Rightarrow> int \<Rightarrow> string \<Rightarrow> string \<Rightarrow> string option"
  exec_fails :: "event list \<Rightarrow> handle \<Rightarrow> string \<Rightarrow> bool \<Rightarrow> string option"
  exec_outcome :: "event list \<Rightarrow> handle \<Rightarrow> string \<Rightarrow> bool \<Rightarrow> string option \<Rightarrow> string + (int \<times> string \<times> string)"

datatype exn = Exception string

fun str_exn :: "exn \<Rightarrow> string" where
  "str_exn (Exception m) = m"

section \<open>SSHConnection (server.py)\<close>

record SSHConnection =
  client :: "handle option"
  hostname :: "string option"
  host_alias :: "string option"

record world =
  ssh_conn :: SSHConnection
  next_handle :: handle
  trace :: "event list"

definition init_world :: world where
  "init_world = \<lparr>ssh_conn = \<lparr>client = None, hostname = None, host_alias = None\<rparr>,
                  next_handle = 0, trace = []\<rparr>"

definition connect :: "ssh_hosts \<Rightarrow> remote \<Rightarrow> string \<Rightarrow> world \<Rightarrow> (exn + string) \<times> world" where
  "connect SSH_HOSTS env host w =
     (let (hostname', port, username, password, description, alias) =
            (case SSH_HOSTS host of
               Some config \<Rightarrow>
                 (cfg_hostname config, get_or (cfg_port config) 22,
                  get_or (cfg_username config) ''root'', cfg_password config,
                  get_or (cfg_description config) [], Some host)
             | None \<Rightarrow> (host, 22, ''root'', None, [], None));
          h = next_handle w;
          w1 = w\<lparr>ssh_conn := (ssh_conn w)\<lparr>host_alias := alias, client := Some h\<rparr>,
                 next_handle := Suc h, trace := trace w @ [NewClient h]\<rparr>
      in if truthy password then
           (let pw = get_or password [];
                w2 = w1\<lparr>trace := trace w1 @ [Connect h hostname' port username pw]\<rparr>
            in case connect_fails env (trace w1) h hostname' port username pw of
                 Some e \<Rightarrow> (Inl (Exception (''SSH connection failed: '' @ e)), w2)
               | None \<Rightarrow>
                   (Inr (''Successfully connected to '' @ host @
                         (if description \<noteq> [] then '' ('' @ description @ '')'' else [])),
                    w2\<lparr>ssh_conn := (ssh_conn w2)\<lparr>hostname := Some hostname'\<rparr>\<rparr>))
         else
           (Inl (Exception (''SSH connection failed: '' @
                   ''No password found for host '' @ quote @ host @ quote @ '' in config'')), w1))"

record exec_result =
  res_hostname :: string
  res_command :: string
  exit_code :: int
  stdout :: string
  stderr :: string
  success :: bool
  used_sudo :: bool

definition sudo_marker :: string where
  "sudo_marker = ''[sudo]''"

text \<open>
  The command line sent (\<open>exec_command\<close> in the source): with sudo, a command that
  already starts with \<open>sudo\<close> is sent as it is and any other gets the prefix \<open>sudo -S\<close>.
\<close>

definition exec_line :: "string \<Rightarrow> bool \<Rightarrow> string" where
  "exec_line command use_sudo =
     (if use_sudo then
        (if startswith (strip command) ''sudo'' then command
         else ''sudo -S '' @ command)
      else command)"

text \<open>With sudo, the lines of stdout that hold the password prompt are dropped.\<close>

definition strip_prompt :: "bool \<Rightarrow> string \<Rightarrow> string" where
  "strip_prompt use_sudo stdout_text =
     (if use_sudo \<and> contains stdout_text sudo_marker
      then join_lines (filter (\<lambda>line. \<not> contains line sudo_marker) (split_lines stdout_text))
      else stdout_text)"

definition execute_command ::
    "remote \<Rightarrow> string \<Rightarrow> bool \<Rightarrow> string option \<Rightarrow> world \<Rightarrow> (exn + exec_result) \<times> world" where
  "execute_command env command use_sudo sudo_password w =
     (case client (ssh_conn w) of
        None \<Rightarrow> (Inl (Exception ''Not connected to any host. Please connect first.''), w)
      | Some h \<Rightarrow>
          if \<not> truthy (hostname (ssh_conn w))
          then (Inl (Exception ''Not connected to any host. Please connect first.''), w)
          else
            (let exec_command = exec_line command use_sudo;
                 w1 = w\<lparr>trace := trace w @ [ExecCommand h exec_command use_sudo]\<rparr>
             in case exec_fails env (trace w) h exec_command use_sudo of
                  Some e \<Rightarrow> (Inl (Exception (''Failed to execute command: '' @ e)), w1)
                | None \<Rightarrow>
                    (let written = (if use_sudo \<and> truthy sudo_password
                                    then Some (get_or sudo_password [] @ nl) else None);
                         w2 = (case written of
                                 None \<Rightarrow> w1
                               | Some d \<Rightarrow> w1\<lparr>trace := trace w1 @ [StdinWrite h d]\<rparr>)
                     in case exec_outcome env (trace w1) h exec_command use_sudo written of
                          Inl e \<Rightarrow> (Inl (Exception (''Failed to execute command: '' @ e)), w2)
                        | Inr (code, out, err) \<Rightarrow>
                            (Inr \<lparr>res_hostname = get_or (hostname (ssh_conn w)) [],
                                  res_command = command,
                                  exit_code = code,
                                  stdout = strip_prompt use_sudo out,
                                  stderr = err,
                                  success = (code = 0),
                                  used_sudo = use_sudo\<rparr>, w2))))"

definition disconnect :: "world \<Rightarrow> string \<times> world" where
  "disconnect w =
     (case client (ssh_conn w) of
        Some h \<Rightarrow>
          (''Disconnected from '' @ str_opt (py_or (host_alias (ssh_conn w)) (hostname (ssh_conn w))),
           w\<lparr>ssh_conn := \<lparr>client = None, hostname = None, host_alias = None\<rparr>,
              trace := trace w @ [Close h]\<rparr>)
      | None \<Rightarrow> (''No active connection'', w))"

definition is_connected :: "SSHConnection \<Rightarrow> bool" where
  "is_connected c = (client c \<noteq> None \<and> hostname c \<noteq> None)"

section \<open>The tool handler (server.py, call_tool)\<close>

definition warning_sign :: string where
  "warning_sign = [CHR 0xE2, CHR 0x9A, CHR 0xA0, CHR 0xEF, CHR 0xB8, CHR 0x8F]"

definition bullet :: string where
  "bullet = [CHR 0xE2, CHR 0x80, CHR 0xA2]"

definition cross_mark :: string where
  "cross_mark = [CHR 0xE2, CHR 0x9D, CHR 0x8C]"

definition destructive_warning :: "string \<Rightarrow> string" where
  "destructive_warning command =
     warning_sign @ ''  WARNING: DESTRUCTIVE COMMAND DETECTED'' @ nl @ nl @
     ''Command: '' @ command @ nl @ nl @
     ''This command could:'' @ nl @
     bullet @ '' Delete files or directories'' @ nl @
     bullet @ '' Modify system configuration'' @ nl @
     bullet @ '' Stop or restart services'' @ nl @
     bullet @ '' Reboot/shutdown the system'' @ nl @
     bullet @ '' Remove packages or users'' @ nl @
     bullet @ '' Change permissions or ownership'' @ nl @ nl @
     cross_mark @ '' CONFIRMATION REQUIRED'' @ nl @ nl @
     ''To execute this command, you MUST confirm by:'' @ nl @
     ''Setting '' @ quote @ ''confirmed: true'' @ quote @ '' in the tool parameters'' @ nl @ nl @
     warning_sign @ ''  Please review the command carefully before confirming!''"

definition format_result :: "exec_result \<Rightarrow> string" where
  "format_result result =
     ''Command: '' @ res_command result @ nl @
     ''Host: '' @ res_hostname result @ nl @
     (if used_sudo result then ''Executed with: sudo'' @ nl else []) @
     ''Exit Code: '' @ str_int (exit_code result) @ nl @ nl @
     (if stdout result \<noteq> [] then ''STDOUT:'' @ nl @ stdout result @ nl else []) @
     (if stderr result \<noteq> [] then nl @ ''STDERR:'' @ nl @ stderr result @ nl else []) @
     (if success result then []
      else nl @ warning_sign @ ''  Command failed with exit code '' @ str_int (exit_code result))"

text \<open>
  The secret for sudo: read from the profile of the session's alias, and only when sudo is
  in effect. The request carries no secret.
\<close>

definition sudo_password_for :: "ssh_hosts \<Rightarrow> SSHConnection \<Rightarrow> bool \<Rightarrow> string option" where
  "sudo_password_for SSH_HOSTS c use_sudo =
     (if use_sudo \<and> truthy (host_alias c) then
        (case SSH_HOSTS (get_or (host_alias c) []) of
           Some config \<Rightarrow> cfg_password config
         | None \<Rightarrow> None)
      else None)"

text \<open>The branch \<open>name == "ssh_execute"\<close>; the result is the text of the reply.\<close>

definition call_tool_ssh_execute ::
    "ssh_hosts \<Rightarrow> remote \<Rightarrow> string option \<Rightarrow> bool \<Rightarrow> bool \<Rightarrow> world \<Rightarrow> string \<times> world" where
  "call_tool_ssh_execute SSH_HOSTS env command confirmed use_sudo w =
     (if \<not> truthy command then (''Error: No command provided'', w)
      else
        (let cmd = get_or command [];
             use_sudo' = (if startswith (strip cmd) ''sudo'' then True else use_sudo)
         in if is_destructive_command cmd \<and> \<not> confirmed then (destructive_warning cmd, w)
            else
              (let sudo_password = sudo_password_for SSH_HOSTS (ssh_conn w) use_sudo'
               in case execute_command env cmd use_sudo' sudo_password w of
                    (Inl e, w') \<Rightarrow> (''Error: '' @ str_exn e, w')
                  | (Inr result, w') \<Rightarrow> (format_result result, w'))))"

text \<open>The branches \<open>ssh_connect\<close>, \<open>ssh_disconnect\<close> and \<open>ssh_status\<close>.\<close>

definition call_tool_ssh_connect ::
    "ssh_hosts \<Rightarrow> remote \<Rightarrow> string option \<Rightarrow> world \<Rightarrow> string \<times> world" where
  "call_tool_ssh_connect SSH_HOSTS env host w =
     (if \<not> truthy host then (''Error: No host specified'', w)
      else (case connect SSH_HOSTS env (get_or host []) w of
              (Inl e, w') \<Rightarrow> (''Error: '' @ str_exn e, w')
            | (Inr result, w') \<Rightarrow> (result, w')))"

definition call_tool_ssh_disconnect :: "world \<Rightarrow> string \<times> world" where
  "call_tool_ssh_disconnect w = disconnect w"

definition call_tool_ssh_status :: "world \<Rightarrow> string" where
  "call_tool_ssh_status w =
     (let c = ssh_conn w in
      if is_connected c then
        ''Connected to: '' @ str_opt (py_or (host_alias c) (hostname c)) @
        (if truthy (host_alias c) \<and> truthy (hostname c)
         then '' ('' @ str_opt (hostname c) @ '')'' else [])
      else ''Not connected to any host'')"

section \<open>The HTTP handler (http_wrapper.py, execute)\<close>

datatype json = JBool bool | JStr string | JInt int

type_synonym json_object = "(string \<times> json) list"

definition http_warning :: "string \<Rightarrow> string" where
  "http_warning command =
     warning_sign @ ''  WARNING: DESTRUCTIVE COMMAND DETECTED'' @ nl @ nl @
     ''Command: '' @ command @ nl @ nl @
     ''This command could:'' @ nl @
     bullet @ '' Delete files or directories'' @ nl @
     bullet @ '' Modify system configuration'' @ nl @
     bullet @ '' Stop or restart services'' @ nl @
     bullet @ '' Reboot/shutdown the system'' @ nl @ nl @
     ''Set '' @ quote @ ''confirmed: true'' @ quote @ '' to proceed.''"

definition http_refusal :: "string \<Rightarrow> json_object" where
  "http_refusal command =
     [(''success'', JBool False),
      (''destructive'', JBool True),
      (''error'', JStr ''Destructive command requires confirmation''),
      (''warning'', JStr (http_warning command))]"

definition http_error :: "string \<Rightarrow> json_object" where
  "http_error msg = [(''success'', JBool False), (''error'', JStr msg)]"

definition http_result :: "exec_result \<Rightarrow> json_object" where
  "http_result result =
     [(''success'', JBool (success result)),
      (''command'', JStr (res_command result)),
      (''hostname'', JStr (res_hostname result)),
      (''exit_code'', JInt (exit_code result)),
      (''stdout'', JStr (stdout result)),
      (''stderr'', JStr (stderr result)),
      (''used_sudo'', JBool (used_sudo result))]"

definition http_execute ::
    "ssh_hosts \<Rightarrow> remote \<Rightarrow> string option \<Rightarrow> bool \<Rightarrow> bool \<Rightarrow> world \<Rightarrow> json_object \<times> world" where
  "http_execute SSH_HOSTS env command confirmed use_sudo w =
     (if \<not> truthy command then (http_error ''No command provided'', w)
      else
        (let cmd = get_or command [];
             use_sudo' = (if startswith (strip cmd) ''sudo'' then True else use_sudo)
         in if is_destructive_command cmd \<and> \<not> confirmed then (http_refusal cmd, w)
            else
              (let sudo_password = sudo_password_for SSH_HOSTS (ssh_conn w) use_sudo'
               in case execute_command env cmd use_sudo' sudo_password w of
                    (Inl e, w') \<Rightarrow> (http_error (str_exn e), w')
                  | (Inr result, w') \<Rightarrow> (http_result result, w'))))"

section \<open>Sessions, traces and example inputs\<close>

text \<open>The session has a client handle exactly when it has a hostname.\<close>

definition session_invariant :: "SSHConnection \<Rightarrow> bool" where
  "session_invariant c = ((client c = None) = (hostname c = None))"

text \<open>The calls a step added to the trace.\<close>

definition new_events :: "world \<Rightarrow> world \<Rightarrow> event list" where
  "new_events w w' = drop (length (trace w)) (trace w')"

fun is_close :: "event \<Rightarrow> bool" where
  "is_close (Close h) = True"
| "is_close e = False"

fun is_transport_open :: "event \<Rightarrow> bool" where
  "is_transport_open (Connect h n p u s) = True"
| "is_transport_open e = False"

text \<open>
  One configured host (alias vm1) and a remote side on which every connection succeeds
  and every command exits with status 0 and no output.
\<close>

definition example_hosts :: ssh_hosts where
  "example_hosts =
     [''vm1'' \<mapsto> \<lparr>cfg_hostname = ''10.0.0.5'', cfg_port = None, cfg_username = Some ''admin'',
                   cfg_password = Some ''s3cret'', cfg_description = None\<rparr>]"

definition example_remote :: remote where
  "example_remote =
     \<lparr>connect_fails = (\<lambda>t h n p u s. None),
      exec_fails = (\<lambda>t h l p. None),
      exec_outcome = (\<lambda>t h l p d. Inr (0, [], []))\<rparr>"

definition connected_world :: world where
  "connected_world = snd (connect example_hosts example_remote ''vm1'' init_world)"

section \<open>Evaluating the character predicates\<close>

text \<open>
  The character predicates read a character code; on the eight bits of a character they
  are the following formulas, which is how concrete commands are evaluated below.
\<close>

lemma is_upper_bits [code]:
  "is_upper (Char b0 b1 b2 b3 b4 b5 b6 b7) =
     (\<not> b7 \<and> b6 \<and> \<not> b5 \<and> (b0 \<or> b1 \<or> b2 \<or> b3 \<or> b4) \<and> \<not> (b4 \<and> b3 \<and> (b2 \<or> (b1 \<and> b0))))"
  by (auto simp: is_upper_def)

lemma is_space_bits [code]:
  "is_space (Char b0 b1 b2 b3 b4 b5 b6 b7) =
     (\<not> b7 \<and> \<not> b6 \<and>
       ((\<not> b5 \<and> \<not> b4 \<and> b3 \<and> (\<not> b2 \<and> (b1 \<or> b0) \<or> b2 \<and> \<not> b1))
        \<or> (\<not> b5 \<and> b4 \<and> b3 \<and> b2)
        \<or> (b5 \<and> \<not> b4 \<and> \<not> b3 \<and> \<not> b2 \<and> \<not> b1 \<and> \<not> b0)))"
  by (auto simp: is_space_def)

lemma is_word_bits [code]:
  "is_word (Char b0 b1 b2 b3 b4 b5 b6 b7) =
     (\<not> b7 \<and>
       ((\<not> b6 \<and> b5 \<and> b4 \<and> (\<not> b3 \<or> (\<not> b2 \<and> \<not> b1)))
        \<or> (b6 \<and> (b0 \<or> b1 \<or> b2 \<or> b3 \<or> b4) \<and> \<not> (b4 \<and> b3 \<and> (b2 \<or> (b1 \<and> b0))))
        \<or> (b6 \<and> \<not> b5 \<and> b4 \<and> b3 \<and> b2 \<and> b1 \<and> b0)))"
  by (auto simp: is_word_def)

section \<open>The classifier on concrete commands\<close>

lemma empty_not_destructive: "\<not> is_destructive_command []"
  by code_simp

lemma destructive_nonempty: "is_destructive_command command \<Longrightarrow> command \<noteq> []"
  using empty_not_destructive by auto

lemma listed_examples_destructive:
  "is_destructive_command ''rm -rf /var/x''"
  "is_destructive_command ''dd if=/dev/zero of=/dev/sda''"
  "is_destructive_command ''shutdown now''"
  "is_destructive_command ''userdel bob''"
  "is_destructive_command ''mv /etc/foo /tmp/''"
  by code_simp+

text \<open>
  The command is lower-cased before matching, so re-casing its letters changes nothing.
\<close>

lemma lower_char_idem: "lower_char (lower_char c) = lower_char c"
  by (cases c) (simp add: is_upper_bits)

lemma lower_idem: "lower (lower s) = lower s"
  by (simp add: lower_def lower_char_idem)

lemma classify_ignores_case:
  "is_destructive_command (lower command) = is_destructive_command command"
  by (simp add: is_destructive_command_def lower_idem)

text \<open>Any re-casing of the letters of a command leaves its classification as it is.\<close>

lemma classify_recase:
  assumes "\<And>c. lower_char (f c) = lower_char c"
  shows "is_destructive_command (map f command) = is_destructive_command command"
proof -
  have "lower (map f command) = lower command"
    using assms by (simp add: lower_def)
  then show ?thesis
    by (simp add: is_destructive_command_def)
qed

text \<open>
  What a match can consume lies within the text searched, so a signature needs all of its
  literal characters in the text.
\<close>

lemma lower_char_not_upper: "\<not> is_upper (lower_char c)"
  by (cases c) (simp add: is_upper_bits)

lemma lower_no_upper: "c \<in> set (strip (lower s)) \<Longrightarrow> \<not> is_upper c"
proof -
  assume "c \<in> set (strip (lower s))"
  then have "c \<in> set (dropWhile is_space (rev (dropWhile is_space (lower s))))"
    by (simp add: strip_def)
  then have "c \<in> set (dropWhile is_space (lower s))"
    using set_dropWhileD by fastforce
  then have "c \<in> set (lower s)"
    by (rule set_dropWhileD)
  then show ?thesis
    by (auto simp: lower_def lower_char_not_upper)
qed

lemma eat_within: "eat l q = Some q' \<Longrightarrow> set l \<subseteq> set (snd q) \<and> set (snd q') \<subseteq> set (snd q)"
proof (induction l q rule: eat.induct)
  case (1 q)
  then show ?case by simp
next
  case (2 d ds p)
  then show ?case by simp
next
  case (3 d ds p c s)
  then show ?case by (auto split: if_splits)
qed

lemma star_within: "q' \<in> set (star k q) \<Longrightarrow> set (snd q') \<subseteq> set (snd q)"
  by (induction k q rule: star.induct) (auto split: if_splits)

lemma eat_step_within:
  "q' \<in> set (case eat l q of None \<Rightarrow> [] | Some q1 \<Rightarrow> [q1]) \<Longrightarrow> set (snd q') \<subseteq> set (snd q)"
  by (cases "eat l q") (use eat_within[of l q] in auto)

lemma step_within: "q' \<in> set (step r q) \<Longrightarrow> set (snd q') \<subseteq> set (snd q)"
proof (induction r q rule: step.induct)
  case (1 l q)
  then show ?case by (simp add: eat_step_within)
next
  case (8 ls q)
  then obtain l where "q' \<in> set (case eat l q of None \<Rightarrow> [] | Some q1 \<Rightarrow> [q1])"
    by auto
  then show ?case by (rule eat_step_within)
next
  case (5 k q)
  then show ?case by (simp add: star_within)
next
  case (7 k p c s)
  then have "q' \<in> set (star k (Some c, s))"
    by (auto split: if_splits)
  from star_within[OF this] show ?case by auto
qed (auto split: if_splits)

lemma run_within:
  "q' \<in> set (run rs qs) \<Longrightarrow> \<exists>q \<in> set qs. set (snd q') \<subseteq> set (snd q)"
proof (induction rs arbitrary: qs)
  case Nil
  then show ?case by auto
next
  case (Cons r rs)
  then have "q' \<in> set (run rs (concat (map (step r) qs)))"
    by (auto split: if_splits)
  from Cons.IH[OF this] obtain q1 where q1: "q1 \<in> set (concat (map (step r) qs))" "set (snd q') \<subseteq> set (snd q1)"
    by blast
  then obtain q where "q \<in> set qs" "q1 \<in> set (step r q)"
    by auto
  with q1 step_within[of q1 r q] show ?case
    by blast
qed

lemma run_snoc: "run (rs @ [r]) qs = concat (map (step r) (run rs qs))"
  by (induction rs arbitrary: qs) auto

lemma starts_within: "q \<in> set (starts q0) \<Longrightarrow> set (snd q) \<subseteq> set (snd q0)"
  by (induction q0 rule: starts.induct) auto

text \<open>A signature that ends in a literal matches only texts that hold every character of it.\<close>

lemma search_needs_literal:
  assumes "re_search (rs @ [Str l]) s"
  shows "set l \<subseteq> set s"
proof -
  from assms obtain q0 where q0: "q0 \<in> set (starts (None, s))" "run (rs @ [Str l]) [q0] \<noteq> []"
    by (auto simp: re_search_def match_at_def list_ex_iff)
  from q0(2) obtain q where q: "q \<in> set (run rs [q0])" "step (Str l) q \<noteq> []"
    unfolding run_snoc by auto
  from q(2) obtain q' where "eat l q = Some q'"
    by (cases "eat l q") auto
  then have "set l \<subseteq> set (snd q)"
    using eat_within by blast
  moreover have "set (snd q) \<subseteq> set (snd q0)"
    using run_within[OF q(1)] by simp
  moreover have "set (snd q0) \<subseteq> set s"
    using starts_within[OF q0(1)] by simp
  ultimately show ?thesis by blast
qed

text \<open>
  The three signatures that end in a literal with an upper-case letter match no
  lower-cased text at all.
\<close>

lemma upper_case_signatures_dead:
  "\<not> re_search [WordB, Str ''cryptsetup'', WordB, Star AnyChar, Str ''luksFormat''] (strip (lower command))"
  "\<not> re_search [WordB, Str ''pacman'', WordB, Star AnyChar, Str ''-R''] (strip (lower command))"
  "\<not> re_search [WordB, Str ''iptables'', WordB, Star AnyChar, Str ''-F''] (strip (lower command))"
proof -
  have F: "is_upper CHR ''F''" and R: "is_upper CHR ''R''"
    by (simp_all add: is_upper_def)
  show "\<not> re_search [WordB, Str ''cryptsetup'', WordB, Star AnyChar, Str ''luksFormat''] (strip (lower command))"
    using search_needs_literal[of "[WordB, Str ''cryptsetup'', WordB, Star AnyChar]" "''luksFormat''" "strip (lower command)"]
      lower_no_upper[of "CHR ''F''" command] F
    by auto
  show "\<not> re_search [WordB, Str ''pacman'', WordB, Star AnyChar, Str ''-R''] (strip (lower command))"
    using search_needs_literal[of "[WordB, Str ''pacman'', WordB, Star AnyChar]" "''-R''" "strip (lower command)"]
      lower_no_upper[of "CHR ''R''" command] R
    by auto
  show "\<not> re_search [WordB, Str ''iptables'', WordB, Star AnyChar, Str ''-F''] (strip (lower command))"
    using search_needs_literal[of "[WordB, Str ''iptables'', WordB, Star AnyChar]" "''-F''" "strip (lower command)"]
      lower_no_upper[of "CHR ''F''" command] F
    by auto
qed

text \<open>
  The other two signatures with an upper-case letter (\<open>-R\<close> of pacman, \<open>-F\<close> of
  iptables) meet the same lower-cased text and miss as well.
\<close>

lemma upper_case_signatures_miss:
  "\<not> is_destructive_command ''pacman -R vim''"
  "\<not> is_destructive_command ''iptables -F''"
  by code_simp+

text \<open>
  C2: every command of a destructive category is classified destructive, among them the
  disk-encryption formatting command \<open>cryptsetup luksFormat /dev/sdb1\<close>. The code does
  not do this: the command is lower-cased and then searched for the signature
  \<open>\bcryptsetup\b.*luksFormat\<close>, whose upper-case F can no longer occur, and no other
  signature matches. The theorem evaluates the classifier at that command.
\<close>

theorem luksformat_not_classified:
  "\<not> is_destructive_command ''cryptsetup luksFormat /dev/sdb1''"
  by code_simp

section \<open>Commands that name no signature keyword\<close>

text \<open>The keywords of the catalogue, one for each signature.\<close>

lemma signature_keywords_eq:
  "signature_keywords =
     [''rm'', ''rm'', ''dd'', ''mkfs'', ''format'', ''fdisk'', ''parted'', ''cryptsetup'', '':>'',
      ''shred'', ''wipefs'', ''>'', ''chmod'', ''chown'', ''kill'', ''killall'', ''pkill'',
      ''systemctl'', ''service'', ''apt-get'', ''apt'', ''yum'', ''dnf'', ''pacman'', ''snap'',
      ''docker'', ''iptables'', ''ufw'', ''init'', ''shutdown'', ''reboot'', ''halt'', ''poweroff'',
      ''userdel'', ''usermod'', ''groupdel'', ''mv'', ''truncate'', ''crontab'']"
  by (simp add: signature_keywords_def DESTRUCTIVE_PATTERNS_def)

text \<open>\<open>sub in s\<close> holds exactly when \<open>s\<close> splits around \<open>sub\<close>; stripping keeps a part of the text.\<close>

lemma startswith_append: "startswith (sub @ post) sub"
  by (induction sub) auto

lemma contains_append: "contains (pre @ sub @ post) sub"
proof (induction pre)
  case Nil
  show ?case by (cases "sub @ post") (use startswith_append[of sub post] in auto)
next
  case (Cons c pre)
  then show ?case by simp
qed














section \<open>The confirmation gate\<close>

lemma warning_echoes_command:
  "contains (destructive_warning command) (''Command: '' @ command)"
proof -
  obtain pre post where "destructive_warning command = pre @ (''Command: '' @ command) @ post"
    unfolding destructive_warning_def by (metis append.assoc)
  then show ?thesis using contains_append by metis
qed

lemma warning_asks_confirmation:
  "contains (destructive_warning command) ''confirmed: true''"
proof -
  obtain pre post where "destructive_warning command = pre @ ''confirmed: true'' @ post"
    unfolding destructive_warning_def by (metis append.assoc)
  then show ?thesis using contains_append by metis
qed

lemma http_warning_echoes_command:
  "contains (http_warning command) (''Command: '' @ command)"
proof -
  obtain pre post where "http_warning command = pre @ (''Command: '' @ command) @ post"
    unfolding http_warning_def by (metis append.assoc)
  then show ?thesis using contains_append by metis
qed

lemma http_warning_asks_confirmation:
  "contains (http_warning command) ''confirmed: true''"
proof -
  obtain pre post where "http_warning command = pre @ ''confirmed: true'' @ post"
    unfolding http_warning_def by (metis append.assoc)
  then show ?thesis using contains_append by metis
qed

lemma new_events_same: "new_events w w = []"
  by (simp add: new_events_def)

text \<open>
  C1: a destructive command submitted with confirmed = false is answered by the refusal,
  in both handlers: the tool handler replies with the warning text, the HTTP handler with
  the object that is marked destructive and carries its warning; each warning echoes the
  command and asks for \<open>confirmed: true\<close>. The world is returned as it was, so the
  session is untouched and the trace has no new call: no channel was opened.
\<close>

theorem destructive_unconfirmed_refused:
  assumes "is_destructive_command command"
  shows "call_tool_ssh_execute SSH_HOSTS env (Some command) False use_sudo w
           = (destructive_warning command, w)
       \<and> http_execute SSH_HOSTS env (Some command) False use_sudo w
           = ([(''success'', JBool False), (''destructive'', JBool True),
               (''error'', JStr ''Destructive command requires confirmation''),
               (''warning'', JStr (http_warning command))], w)
       \<and> new_events w (snd (call_tool_ssh_execute SSH_HOSTS env (Some command) False use_sudo w)) = []
       \<and> new_events w (snd (http_execute SSH_HOSTS env (Some command) False use_sudo w)) = []
       \<and> contains (destructive_warning command) (''Command: '' @ command)
       \<and> contains (destructive_warning command) ''confirmed: true''
       \<and> contains (http_warning command) (''Command: '' @ command)
       \<and> contains (http_warning command) ''confirmed: true''"
proof -
  have ne: "command \<noteq> []"
    using assms by (rule destructive_nonempty)
  have a: "call_tool_ssh_execute SSH_HOSTS env (Some command) False use_sudo w
             = (destructive_warning command, w)"
    using assms ne by (simp add: call_tool_ssh_execute_def Let_def)
  have b: "http_execute SSH_HOSTS env (Some command) False use_sudo w
           = ([(''success'', JBool False), (''destructive'', JBool True),
               (''error'', JStr ''Destructive command requires confirmation''),
               (''warning'', JStr (http_warning command))], w)"
    using assms ne by (simp add: http_execute_def Let_def http_refusal_def)
  show ?thesis
    by (simp only: a b snd_conv new_events_same warning_echoes_command
        warning_asks_confirmation http_warning_echoes_command
        http_warning_asks_confirmation simp_thms)
qed

text \<open>
  C1 on the example: \<open>rm -rf /var/x\<close> without confirmation on the session connected
  to vm1.
\<close>

theorem destructive_unconfirmed_refused_witness:
  "is_destructive_command ''rm -rf /var/x''
   \<and> call_tool_ssh_execute example_hosts example_remote (Some ''rm -rf /var/x'') False False connected_world
       = (destructive_warning ''rm -rf /var/x'', connected_world)
   \<and> http_execute example_hosts example_remote (Some ''rm -rf /var/x'') False False connected_world
       = ([(''success'', JBool False), (''destructive'', JBool True),
           (''error'', JStr ''Destructive command requires confirmation''),
           (''warning'', JStr (http_warning ''rm -rf /var/x''))], connected_world)
   \<and> new_events connected_world
        (snd (http_execute example_hosts example_remote (Some ''rm -rf /var/x'') False False connected_world)) = []"
proof -
  have d: "is_destructive_command ''rm -rf /var/x''"
    by code_simp
  show ?thesis
    using d destructive_unconfirmed_refused[OF d, where SSH_HOSTS = example_hosts
        and env = example_remote and use_sudo = False and w = connected_world]
    by (simp add: new_events_same)
qed

section \<open>Traces and results of the operations\<close>

lemma new_events_append: "trace w' = trace w @ es \<Longrightarrow> new_events w w' = es"
  by (simp add: new_events_def)

lemma execute_command_keeps_session:
  "ssh_conn (snd (execute_command env command use_sudo sudo_password w)) = ssh_conn w"
  by (simp add: execute_command_def Let_def split: option.splits sum.splits prod.splits)

lemma execute_command_not_connected:
  "client (ssh_conn w) = None \<or> \<not> truthy (hostname (ssh_conn w)) \<Longrightarrow>
   execute_command env command use_sudo sudo_password w =
     (Inl (Exception ''Not connected to any host. Please connect first.''), w)"
  by (auto simp: execute_command_def split: option.splits)

lemma execute_command_trace:
  assumes "client (ssh_conn w) = Some h" "truthy (hostname (ssh_conn w))"
  shows "trace (snd (execute_command env command use_sudo sudo_password w)) =
           trace w @ ExecCommand h (exec_line command use_sudo) use_sudo #
             (if exec_fails env (trace w) h (exec_line command use_sudo) use_sudo = None
                 \<and> use_sudo \<and> truthy sudo_password
              then [StdinWrite h (get_or sudo_password [] @ nl)] else [])"
  using assms
  by (simp add: execute_command_def Let_def split: option.splits sum.splits prod.splits)

lemma execute_command_result:
  assumes "client (ssh_conn w) = Some h" "hostname (ssh_conn w) = Some hn" "hn \<noteq> []"
      and "exec_fails env (trace w) h (exec_line command use_sudo) use_sudo = None"
      and "exec_outcome env (trace w @ [ExecCommand h (exec_line command use_sudo) use_sudo]) h
             (exec_line command use_sudo) use_sudo
             (if use_sudo \<and> truthy sudo_password then Some (get_or sudo_password [] @ nl) else None)
           = Inr (code, out, err)"
  shows "fst (execute_command env command use_sudo sudo_password w) =
           Inr \<lparr>res_hostname = hn, res_command = command, exit_code = code,
                stdout = strip_prompt use_sudo out, stderr = err,
                success = (code = 0), used_sudo = use_sudo\<rparr>"
  using assms
  by (simp add: execute_command_def Let_def split: option.splits sum.splits prod.splits)

lemma execute_command_used_sudo:
  "fst (execute_command env command use_sudo sudo_password w) = Inr r \<Longrightarrow>
     used_sudo r = use_sudo \<and> res_command r = command"
  by (auto simp: execute_command_def Let_def split: option.splits sum.splits prod.splits if_splits)

lemma execute_command_pty:
  "ExecCommand h l p \<in> set (new_events w (snd (execute_command env command use_sudo sudo_password w)))
     \<Longrightarrow> p = use_sudo \<and> l = exec_line command use_sudo"
proof (cases "client (ssh_conn w) = None \<or> \<not> truthy (hostname (ssh_conn w))")
  case True
  assume a: "ExecCommand h l p \<in> set (new_events w (snd (execute_command env command use_sudo sudo_password w)))"
  from True a show ?thesis
    by (simp add: execute_command_not_connected new_events_def)
next
  case False
  assume a: "ExecCommand h l p \<in> set (new_events w (snd (execute_command env command use_sudo sudo_password w)))"
  from False obtain h' where h': "client (ssh_conn w) = Some h'" "truthy (hostname (ssh_conn w))"
    by auto
  from a show ?thesis
    unfolding new_events_append[OF execute_command_trace[OF h']]
    by (auto split: if_splits)
qed

text \<open>Past the gate, both handlers run \<open>execute_command\<close> and render its outcome.\<close>

lemma call_tool_ssh_execute_runs:
  assumes "command \<noteq> []" "confirmed \<or> \<not> is_destructive_command command"
  shows "call_tool_ssh_execute SSH_HOSTS env (Some command) confirmed use_sudo w =
           (case execute_command env command (startswith (strip command) ''sudo'' \<or> use_sudo)
                   (sudo_password_for SSH_HOSTS (ssh_conn w) (startswith (strip command) ''sudo'' \<or> use_sudo)) w of
              (Inl e, w') \<Rightarrow> (''Error: '' @ str_exn e, w')
            | (Inr result, w') \<Rightarrow> (format_result result, w'))"
  using assms by (auto simp: call_tool_ssh_execute_def Let_def)

lemma http_execute_runs:
  assumes "command \<noteq> []" "confirmed \<or> \<not> is_destructive_command command"
  shows "http_execute SSH_HOSTS env (Some command) confirmed use_sudo w =
           (case execute_command env command (startswith (strip command) ''sudo'' \<or> use_sudo)
                   (sudo_password_for SSH_HOSTS (ssh_conn w) (startswith (strip command) ''sudo'' \<or> use_sudo)) w of
              (Inl e, w') \<Rightarrow> (http_error (str_exn e), w')
            | (Inr result, w') \<Rightarrow> (http_result result, w'))"
  using assms by (auto simp: http_execute_def Let_def)

lemma call_tool_ssh_execute_world:
  assumes "command \<noteq> []" "confirmed \<or> \<not> is_destructive_command command"
  shows "snd (call_tool_ssh_execute SSH_HOSTS env (Some command) confirmed use_sudo w) =
           snd (execute_command env command (startswith (strip command) ''sudo'' \<or> use_sudo)
                   (sudo_password_for SSH_HOSTS (ssh_conn w) (startswith (strip command) ''sudo'' \<or> use_sudo)) w)"
  unfolding call_tool_ssh_execute_runs[OF assms]
  by (simp split: prod.splits sum.splits)

lemma http_execute_world:
  assumes "command \<noteq> []" "confirmed \<or> \<not> is_destructive_command command"
  shows "snd (http_execute SSH_HOSTS env (Some command) confirmed use_sudo w) =
           snd (execute_command env command (startswith (strip command) ''sudo'' \<or> use_sudo)
                   (sudo_password_for SSH_HOSTS (ssh_conn w) (startswith (strip command) ''sudo'' \<or> use_sudo)) w)"
  unfolding http_execute_runs[OF assms]
  by (simp split: prod.splits sum.splits)

lemma http_execute_result:
  assumes "command \<noteq> []" "confirmed \<or> \<not> is_destructive_command command"
      and "fst (execute_command env command (startswith (strip command) ''sudo'' \<or> use_sudo)
                   (sudo_password_for SSH_HOSTS (ssh_conn w) (startswith (strip command) ''sudo'' \<or> use_sudo)) w) = Inr r"
  shows "fst (http_execute SSH_HOSTS env (Some command) confirmed use_sudo w) = http_result r"
  unfolding http_execute_runs[OF assms(1,2)] using assms(3)
  by (auto split: prod.splits sum.splits)

lemma call_tool_ssh_execute_result:
  assumes "command \<noteq> []" "confirmed \<or> \<not> is_destructive_command command"
      and "fst (execute_command env command (startswith (strip command) ''sudo'' \<or> use_sudo)
                   (sudo_password_for SSH_HOSTS (ssh_conn w) (startswith (strip command) ''sudo'' \<or> use_sudo)) w) = Inr r"
  shows "fst (call_tool_ssh_execute SSH_HOSTS env (Some command) confirmed use_sudo w) = format_result r"
  unfolding call_tool_ssh_execute_runs[OF assms(1,2)] using assms(3)
  by (auto split: prod.splits sum.splits)

lemma format_result_reports_sudo:
  assumes "used_sudo r"
  shows "contains (format_result r) ''Executed with: sudo''"
proof -
  obtain pre post where "format_result r = pre @ ''Executed with: sudo'' @ post"
    unfolding format_result_def using assms by (simp only: if_True) (metis append.assoc)
  then show ?thesis using contains_append by metis
qed

lemma call_tool_execute_keeps_session:
  "ssh_conn (snd (call_tool_ssh_execute SSH_HOSTS env command confirmed use_sudo w)) = ssh_conn w"
proof (cases "truthy command \<and> (confirmed \<or> \<not> is_destructive_command (get_or command []))")
  case True
  then obtain c where c: "command = Some c" "c \<noteq> []" "confirmed \<or> \<not> is_destructive_command c"
    by (cases command) auto
  show ?thesis
    unfolding c(1) call_tool_ssh_execute_world[OF c(2,3)] by (rule execute_command_keeps_session)
next
  case False
  then show ?thesis by (auto simp: call_tool_ssh_execute_def Let_def)
qed

lemma http_execute_keeps_session:
  "ssh_conn (snd (http_execute SSH_HOSTS env command confirmed use_sudo w)) = ssh_conn w"
proof (cases "truthy command \<and> (confirmed \<or> \<not> is_destructive_command (get_or command []))")
  case True
  then obtain c where c: "command = Some c" "c \<noteq> []" "confirmed \<or> \<not> is_destructive_command c"
    by (cases command) auto
  show ?thesis
    unfolding c(1) http_execute_world[OF c(2,3)] by (rule execute_command_keeps_session)
next
  case False
  then show ?thesis by (auto simp: http_execute_def Let_def)
qed

lemma startswith_sudo_nonempty: "startswith (strip command) ''sudo'' \<Longrightarrow> command \<noteq> []"
  by (auto simp: strip_def)

lemma example_connect:
  "connect example_hosts example_remote ''vm1'' init_world =
     (Inr ''Successfully connected to vm1'',
      \<lparr>ssh_conn = \<lparr>client = Some 0, hostname = Some ''10.0.0.5'', host_alias = Some ''vm1''\<rparr>,
       next_handle = 1,
       trace = [NewClient 0, Connect 0 ''10.0.0.5'' 22 ''admin'' ''s3cret'']\<rparr>)"
  by (simp add: connect_def example_hosts_def example_remote_def init_world_def)

lemma connected_world_eq:
  "connected_world =
     \<lparr>ssh_conn = \<lparr>client = Some 0, hostname = Some ''10.0.0.5'', host_alias = Some ''vm1''\<rparr>,
      next_handle = 1,
      trace = [NewClient 0, Connect 0 ''10.0.0.5'' 22 ''admin'' ''s3cret'']\<rparr>"
  by (simp add: connected_world_def example_connect)


section \<open>Reconnecting\<close>

lemma connect_never_closes:
  "\<not> list_ex is_close (new_events w (snd (connect SSH_HOSTS env host w)))"
  by (auto simp: connect_def Let_def new_events_def split: option.splits prod.splits)

text \<open>
  C3: a connect made while the session is connected closes the prior connection before
  replacing it. The code does not: \<open>connect\<close> assigns a fresh client over the old one and
  never calls \<open>close\<close> (only \<open>disconnect\<close> does). The theorem runs the failing input:
  connected to vm1 through client 0, a second connect succeeds through client 1, and the
  trace holds no \<open>Close\<close> at all, so client 0 stays open and unreachable.
\<close>

theorem reconnect_leaves_prior_client_open:
  "is_connected (ssh_conn connected_world) \<and> client (ssh_conn connected_world) = Some 0 \<and>
   fst (connect example_hosts example_remote ''vm1'' connected_world)
     = Inr ''Successfully connected to vm1'' \<and>
   client (ssh_conn (snd (connect example_hosts example_remote ''vm1'' connected_world))) = Some 1 \<and>
   trace (snd (connect example_hosts example_remote ''vm1'' connected_world)) =
     [NewClient 0, Connect 0 ''10.0.0.5'' 22 ''admin'' ''s3cret'',
      NewClient 1, Connect 1 ''10.0.0.5'' 22 ''admin'' ''s3cret''] \<and>
   \<not> list_ex is_close (trace (snd (connect example_hosts example_remote ''vm1'' connected_world)))"
  by (simp add: connected_world_eq connect_def example_hosts_def example_remote_def is_connected_def)

section \<open>The session invariant\<close>

text \<open>
  C4, as stated, fails: on a fresh session a connect to a host without a credential
  raises after the client object has been assigned, so the session is left with a handle
  and no hostname.
\<close>

theorem failed_connect_breaks_invariant:
  "session_invariant (ssh_conn init_world) \<and>
   fst (connect example_hosts example_remote ''db9'' init_world)
     = Inl (Exception (''SSH connection failed: No password found for host '' @ quote @ ''db9'' @ quote @ '' in config'')) \<and>
   client (ssh_conn (snd (connect example_hosts example_remote ''db9'' init_world))) = Some 0 \<and>
   hostname (ssh_conn (snd (connect example_hosts example_remote ''db9'' init_world))) = None \<and>
   \<not> session_invariant (ssh_conn (snd (connect example_hosts example_remote ''db9'' init_world)))"
  by (simp add: connect_def example_hosts_def example_remote_def init_world_def session_invariant_def)

lemma connect_success_both_present:
  "fst (connect SSH_HOSTS env host w) = Inr msg \<Longrightarrow>
     client (ssh_conn (snd (connect SSH_HOSTS env host w))) \<noteq> None \<and>
     hostname (ssh_conn (snd (connect SSH_HOSTS env host w))) \<noteq> None"
  by (auto simp: connect_def Let_def split: option.splits prod.splits if_splits)

lemma connect_failure_keeps_hostname:
  "fst (connect SSH_HOSTS env host w) = Inl e \<Longrightarrow>
     client (ssh_conn (snd (connect SSH_HOSTS env host w))) \<noteq> None \<and>
     hostname (ssh_conn (snd (connect SSH_HOSTS env host w))) = hostname (ssh_conn w)"
  by (auto simp: connect_def Let_def split: option.splits prod.splits if_splits)

lemma connect_invariant_iff:
  assumes "session_invariant (ssh_conn w)"
  shows "session_invariant (ssh_conn (snd (connect SSH_HOSTS env host w))) =
           (client (ssh_conn w) \<noteq> None \<or> (\<exists>msg. fst (connect SSH_HOSTS env host w) = Inr msg))"
proof (cases "fst (connect SSH_HOSTS env host w)")
  case (Inl e)
  from connect_failure_keeps_hostname[OF Inl] assms Inl show ?thesis
    by (auto simp: session_invariant_def)
next
  case (Inr msg)
  from connect_success_both_present[OF Inr] Inr show ?thesis
    by (auto simp: session_invariant_def)
qed

text \<open>
  C4, amended: every operation preserves the invariant that the client handle and the
  hostname are both present or both absent, except a connect that fails on a session
  holding no client handle. So disconnect, execute (the method and both handlers), a
  connect that succeeds, and a connect that fails while a client handle is present all
  preserve it; and the session counts as connected only when both are present.
\<close>

theorem session_invariant_kept:
  assumes "session_invariant (ssh_conn w)"
  shows "session_invariant (ssh_conn (snd (disconnect w)))
       \<and> session_invariant (ssh_conn (snd (execute_command env command use_sudo sudo_password w)))
       \<and> session_invariant (ssh_conn (snd (call_tool_ssh_execute SSH_HOSTS env cmd confirmed use_sudo w)))
       \<and> session_invariant (ssh_conn (snd (http_execute SSH_HOSTS env cmd confirmed use_sudo w)))
       \<and> (\<forall>msg. fst (connect SSH_HOSTS env host w) = Inr msg \<longrightarrow>
            session_invariant (ssh_conn (snd (connect SSH_HOSTS env host w))))
       \<and> (client (ssh_conn w) \<noteq> None \<longrightarrow>
            session_invariant (ssh_conn (snd (connect SSH_HOSTS env host w))))
       \<and> (session_invariant (ssh_conn (snd (connect SSH_HOSTS env host w))) =
            (client (ssh_conn w) \<noteq> None \<or> (\<exists>msg. fst (connect SSH_HOSTS env host w) = Inr msg)))
       \<and> (is_connected (ssh_conn w) \<longrightarrow> client (ssh_conn w) \<noteq> None \<and> hostname (ssh_conn w) \<noteq> None)"
proof -
  have d: "session_invariant (ssh_conn (snd (disconnect w)))"
    using assms by (simp add: disconnect_def session_invariant_def split: option.splits)
  note i = connect_invariant_iff[OF assms, of SSH_HOSTS env host]
  have c: "\<forall>msg. fst (connect SSH_HOSTS env host w) = Inr msg \<longrightarrow>
            session_invariant (ssh_conn (snd (connect SSH_HOSTS env host w)))"
    using i by blast
  have f: "client (ssh_conn w) \<noteq> None \<longrightarrow>
            session_invariant (ssh_conn (snd (connect SSH_HOSTS env host w)))"
    using i by blast
  have e: "session_invariant (ssh_conn (snd (execute_command env command use_sudo sudo_password w)))
       \<and> session_invariant (ssh_conn (snd (call_tool_ssh_execute SSH_HOSTS env cmd confirmed use_sudo w)))
       \<and> session_invariant (ssh_conn (snd (http_execute SSH_HOSTS env cmd confirmed use_sudo w)))"
    using assms
    by (simp add: execute_command_keeps_session call_tool_execute_keeps_session
        http_execute_keeps_session)
  have g: "is_connected (ssh_conn w) \<longrightarrow> client (ssh_conn w) \<noteq> None \<and> hostname (ssh_conn w) \<noteq> None"
    by (simp add: is_connected_def)
  show ?thesis
    using d e c f i g by blast
qed

text \<open>
  The amended C4 on the example: the connected session, its disconnect, an execute on it,
  a connect that fails on it (\<open>db9\<close> is no alias), and the successful connect of the fresh
  session.
\<close>

theorem session_invariant_kept_witness:
  "session_invariant (ssh_conn connected_world)
   \<and> session_invariant (ssh_conn (snd (disconnect connected_world)))
   \<and> session_invariant (ssh_conn (snd (http_execute example_hosts example_remote (Some ''uptime'') False False connected_world)))
   \<and> fst (connect example_hosts example_remote ''db9'' connected_world)
       = Inl (Exception (''SSH connection failed: No password found for host '' @ quote @ ''db9'' @ quote @ '' in config''))
   \<and> session_invariant (ssh_conn (snd (connect example_hosts example_remote ''db9'' connected_world)))
   \<and> session_invariant (ssh_conn init_world)
   \<and> fst (connect example_hosts example_remote ''vm1'' init_world) = Inr ''Successfully connected to vm1''
   \<and> session_invariant (ssh_conn (snd (connect example_hosts example_remote ''vm1'' init_world)))"
proof -
  have a: "session_invariant (ssh_conn connected_world)"
    by (simp add: connected_world_eq session_invariant_def)
  have b: "session_invariant (ssh_conn init_world)"
    by (simp add: init_world_def session_invariant_def)
  have c: "fst (connect example_hosts example_remote ''vm1'' init_world) = Inr ''Successfully connected to vm1''"
    by (simp add: example_connect)
  have f: "fst (connect example_hosts example_remote ''db9'' connected_world)
       = Inl (Exception (''SSH connection failed: No password found for host '' @ quote @ ''db9'' @ quote @ '' in config''))"
    by (simp add: connect_def example_hosts_def Let_def)
  have h: "client (ssh_conn connected_world) \<noteq> None"
    by (simp add: connected_world_eq)
  show ?thesis
    using a b c f h
      session_invariant_kept[OF a, where env = example_remote and SSH_HOSTS = example_hosts
        and cmd = "Some ''uptime''" and confirmed = False and use_sudo = False and host = "''db9''"]
      session_invariant_kept[OF b, where env = example_remote and SSH_HOSTS = example_hosts
        and host = "''vm1''"]
    by simp
qed

section \<open>Connecting without a credential\<close>

text \<open>
  C7: when the argument is not a known alias, or its profile has no non-empty password,
  connect fails with the no-credential error (the code raises a plain \<open>Exception\<close> whose
  message is \<open>SSH connection failed: No password found for host '...' in config\<close>), and
  the only call made is the creation of the client object: \<open>client.connect\<close> is never
  called, so no transport is opened, and the hostname of the session is not set.
\<close>

theorem connect_without_password_fails:
  assumes "SSH_HOSTS host = None \<or> (\<exists>config. SSH_HOSTS host = Some config \<and> \<not> truthy (cfg_password config))"
  shows "fst (connect SSH_HOSTS env host w) =
           Inl (Exception (''SSH connection failed: No password found for host '' @ quote @ host @ quote @ '' in config''))
       \<and> new_events w (snd (connect SSH_HOSTS env host w)) = [NewClient (next_handle w)]
       \<and> \<not> list_ex is_transport_open (new_events w (snd (connect SSH_HOSTS env host w)))
       \<and> hostname (ssh_conn (snd (connect SSH_HOSTS env host w))) = hostname (ssh_conn w)"
  using assms
  by (auto simp: connect_def Let_def new_events_def split: option.splits)

text \<open>
  C7 on the example: \<open>10.0.0.9\<close> is not an alias of the table.
\<close>

theorem connect_without_password_fails_witness:
  "example_hosts ''10.0.0.9'' = None
   \<and> fst (connect example_hosts example_remote ''10.0.0.9'' init_world) =
       Inl (Exception (''SSH connection failed: No password found for host '' @ quote @ ''10.0.0.9'' @ quote @ '' in config''))
   \<and> new_events init_world (snd (connect example_hosts example_remote ''10.0.0.9'' init_world)) = [NewClient 0]
   \<and> hostname (ssh_conn (snd (connect example_hosts example_remote ''10.0.0.9'' init_world))) = None"
proof -
  have a: "example_hosts ''10.0.0.9'' = None"
    by (simp add: example_hosts_def)
  then have b: "example_hosts ''10.0.0.9'' = None
      \<or> (\<exists>config. example_hosts ''10.0.0.9'' = Some config \<and> \<not> truthy (cfg_password config))"
    by simp
  show ?thesis
    using a connect_without_password_fails[where SSH_HOSTS = example_hosts
        and host = "''10.0.0.9''" and env = example_remote and w = init_world, OF b]
    by (simp add: init_world_def)
qed

section \<open>Disconnecting\<close>

text \<open>
  C8: in the connected state disconnect closes the client, resets the session and returns
  \<open>Disconnected from\<close> followed by the alias (or the hostname when there is no alias); a
  second disconnect returns \<open>No active connection\<close> and changes nothing. Both are values
  of a total function: nothing is raised.
\<close>

theorem disconnect_idempotent:
  assumes "client (ssh_conn w) = Some h" and "hostname (ssh_conn w) = Some hn"
  shows "disconnect w =
           (''Disconnected from '' @
              (if truthy (host_alias (ssh_conn w)) then get_or (host_alias (ssh_conn w)) [] else hn),
            w\<lparr>ssh_conn := \<lparr>client = None, hostname = None, host_alias = None\<rparr>,
               trace := trace w @ [Close h]\<rparr>)
       \<and> \<not> is_connected (ssh_conn (snd (disconnect w)))
       \<and> disconnect (snd (disconnect w)) = (''No active connection'', snd (disconnect w))"
  using assms
  by (cases "host_alias (ssh_conn w)") (simp_all add: disconnect_def py_or_def is_connected_def)

text \<open>
  C8 on the example session connected to vm1.
\<close>

theorem disconnect_idempotent_witness:
  "client (ssh_conn connected_world) = Some 0 \<and> hostname (ssh_conn connected_world) = Some ''10.0.0.5''
   \<and> fst (disconnect connected_world) = ''Disconnected from vm1''
   \<and> trace (snd (disconnect connected_world)) =
        [NewClient 0, Connect 0 ''10.0.0.5'' 22 ''admin'' ''s3cret'', Close 0]
   \<and> \<not> is_connected (ssh_conn (snd (disconnect connected_world)))
   \<and> disconnect (snd (disconnect connected_world)) = (''No active connection'', snd (disconnect connected_world))"
proof -
  have a: "client (ssh_conn connected_world) = Some 0"
    by (simp add: connected_world_eq)
  have b: "hostname (ssh_conn connected_world) = Some ''10.0.0.5''"
    by (simp add: connected_world_eq)
  show ?thesis
    using a b disconnect_idempotent[OF a b]
    by (simp add: connected_world_eq disconnect_def is_connected_def py_or_def)
qed

lemma disconnect_twice:
  "disconnect (snd (disconnect w)) = (''No active connection'', snd (disconnect w))"
  by (simp add: disconnect_def split: option.splits)

section \<open>Escalation\<close>

lemma example_not_destructive:
  "\<not> is_destructive_command ''sudo apt update''"
  "\<not> is_destructive_command ''whoami''"
  "\<not> is_destructive_command ''sudoedit /etc/hosts''"
  "\<not> is_destructive_command ''sudo-helper''"
  by code_simp+

lemma example_sudo_prefix:
  "startswith (strip ''sudo apt update'') ''sudo''"
  "\<not> startswith (strip ''whoami'') ''sudo''"
  "startswith (strip ''sudoedit /etc/hosts'') ''sudo''"
  "startswith (strip ''sudo-helper'') ''sudo''"
  by code_simp+

lemma handler_new_events:
  assumes "command \<noteq> []" "confirmed \<or> \<not> is_destructive_command command"
      and "client (ssh_conn w) = Some h" "hostname (ssh_conn w) = Some hn" "hn \<noteq> []"
      and "us = (startswith (strip command) ''sudo'' \<or> use_sudo)"
  shows "new_events w (snd (http_execute SSH_HOSTS env (Some command) confirmed use_sudo w)) =
           ExecCommand h (exec_line command us) us #
             (if exec_fails env (trace w) h (exec_line command us) us = None
                 \<and> us \<and> truthy (sudo_password_for SSH_HOSTS (ssh_conn w) us)
              then [StdinWrite h (get_or (sudo_password_for SSH_HOSTS (ssh_conn w) us) [] @ nl)] else [])"
    and "new_events w (snd (call_tool_ssh_execute SSH_HOSTS env (Some command) confirmed use_sudo w)) =
           ExecCommand h (exec_line command us) us #
             (if exec_fails env (trace w) h (exec_line command us) us = None
                 \<and> us \<and> truthy (sudo_password_for SSH_HOSTS (ssh_conn w) us)
              then [StdinWrite h (get_or (sudo_password_for SSH_HOSTS (ssh_conn w) us) [] @ nl)] else [])"
proof -
  have t: "truthy (hostname (ssh_conn w))"
    using assms(4,5) by simp
  show "new_events w (snd (http_execute SSH_HOSTS env (Some command) confirmed use_sudo w)) =
           ExecCommand h (exec_line command us) us #
             (if exec_fails env (trace w) h (exec_line command us) us = None
                 \<and> us \<and> truthy (sudo_password_for SSH_HOSTS (ssh_conn w) us)
              then [StdinWrite h (get_or (sudo_password_for SSH_HOSTS (ssh_conn w) us) [] @ nl)] else [])"
    unfolding http_execute_world[OF assms(1,2)] assms(6)
    by (rule new_events_append[OF execute_command_trace[OF assms(3) t]])
  show "new_events w (snd (call_tool_ssh_execute SSH_HOSTS env (Some command) confirmed use_sudo w)) =
           ExecCommand h (exec_line command us) us #
             (if exec_fails env (trace w) h (exec_line command us) us = None
                 \<and> us \<and> truthy (sudo_password_for SSH_HOSTS (ssh_conn w) us)
              then [StdinWrite h (get_or (sudo_password_for SSH_HOSTS (ssh_conn w) us) [] @ nl)] else [])"
    unfolding call_tool_ssh_execute_world[OF assms(1,2)] assms(6)
    by (rule new_events_append[OF execute_command_trace[OF assms(3) t]])
qed

lemma http_result_inject: "http_result r = http_result r' \<Longrightarrow> used_sudo r = used_sudo r' \<and> res_command r = res_command r'"
  by (simp add: http_result_def)

lemma http_execute_result_is:
  assumes "fst (http_execute SSH_HOSTS env (Some command) confirmed use_sudo w) = http_result r"
  shows "used_sudo r = (startswith (strip command) ''sudo'' \<or> use_sudo) \<and> res_command r = command"
proof (cases "command \<noteq> [] \<and> (confirmed \<or> \<not> is_destructive_command command)")
  case False
  then consider "command = []"
    | "command \<noteq> []" "is_destructive_command command" "\<not> confirmed"
    by auto
  then show ?thesis
  proof cases
    case 1
    then have "http_execute SSH_HOSTS env (Some command) confirmed use_sudo w
                 = (http_error ''No command provided'', w)"
      by (simp add: http_execute_def)
    with assms show ?thesis
      by (simp add: http_error_def http_result_def)
  next
    case 2
    then have "http_execute SSH_HOSTS env (Some command) confirmed use_sudo w
                 = (http_refusal command, w)"
      by (simp add: http_execute_def Let_def)
    with assms show ?thesis
      by (simp add: http_refusal_def http_result_def)
  qed
next
  case True
  then have g: "command \<noteq> []" "confirmed \<or> \<not> is_destructive_command command"
    by auto
  obtain x w' where e: "execute_command env command (startswith (strip command) ''sudo'' \<or> use_sudo)
       (sudo_password_for SSH_HOSTS (ssh_conn w) (startswith (strip command) ''sudo'' \<or> use_sudo)) w = (x, w')"
    by (cases "execute_command env command (startswith (strip command) ''sudo'' \<or> use_sudo)
       (sudo_password_for SSH_HOSTS (ssh_conn w) (startswith (strip command) ''sudo'' \<or> use_sudo)) w")
  show ?thesis
  proof (cases x)
    case (Inl ex)
    with assms e show ?thesis
      unfolding http_execute_runs[OF g]
      by (simp add: http_error_def http_result_def)
  next
    case (Inr r')
    with assms e have "http_result r' = http_result r"
      unfolding http_execute_runs[OF g] by simp
    then have "used_sudo r = used_sudo r' \<and> res_command r = res_command r'"
      using http_result_inject by metis
    moreover have "used_sudo r' = (startswith (strip command) ''sudo'' \<or> use_sudo) \<and> res_command r' = command"
    proof (rule execute_command_used_sudo)
      show "fst (execute_command env command (startswith (strip command) ''sudo'' \<or> use_sudo)
          (sudo_password_for SSH_HOSTS (ssh_conn w) (startswith (strip command) ''sudo'' \<or> use_sudo)) w)
          = Inr r'"
        using e Inr by simp
    qed
    ultimately show ?thesis by simp
  qed
qed

text \<open>
  C5: when the trimmed command starts with \<open>sudo\<close>, the caller's flag does not matter and
  use_sudo is true in its place. Both handlers answer exactly as they do with
  use_sudo = true; every channel either of them opens is opened with a pseudo-terminal,
  which is the use_sudo argument of \<open>exec_command\<close>; past the gate on a connected session
  each opens its channel for the command with that argument true; and when the remote side
  completes, the tool handler's reply says \<open>Executed with: sudo\<close> and the HTTP result has
  \<open>used_sudo\<close> true.
\<close>

theorem sudo_prefix_forces_sudo:
  assumes "startswith (strip command) ''sudo''"
  shows "call_tool_ssh_execute SSH_HOSTS env (Some command) confirmed use_sudo w
           = call_tool_ssh_execute SSH_HOSTS env (Some command) confirmed True w
       \<and> http_execute SSH_HOSTS env (Some command) confirmed use_sudo w
           = http_execute SSH_HOSTS env (Some command) confirmed True w
       \<and> (\<forall>r. fst (http_execute SSH_HOSTS env (Some command) confirmed use_sudo w) = http_result r
              \<longrightarrow> used_sudo r)
       \<and> (\<forall>h l p. ExecCommand h l p \<in>
              set (new_events w (snd (http_execute SSH_HOSTS env (Some command) confirmed use_sudo w)))
              \<longrightarrow> p)
       \<and> (\<forall>h l p. ExecCommand h l p \<in>
              set (new_events w (snd (call_tool_ssh_execute SSH_HOSTS env (Some command) confirmed use_sudo w)))
              \<longrightarrow> p)
       \<and> (\<forall>h hn. (confirmed \<or> \<not> is_destructive_command command)
              \<and> client (ssh_conn w) = Some h \<and> hostname (ssh_conn w) = Some hn \<and> hn \<noteq> [] \<longrightarrow>
            (\<exists>rest. new_events w (snd (call_tool_ssh_execute SSH_HOSTS env (Some command) confirmed use_sudo w))
                      = ExecCommand h command True # rest)
            \<and> (\<exists>rest. new_events w (snd (http_execute SSH_HOSTS env (Some command) confirmed use_sudo w))
                      = ExecCommand h command True # rest)
            \<and> (\<forall>code out err.
                  exec_fails env (trace w) h command True = None
                  \<and> exec_outcome env (trace w @ [ExecCommand h command True]) h command True
                      (if truthy (sudo_password_for SSH_HOSTS (ssh_conn w) True)
                       then Some (get_or (sudo_password_for SSH_HOSTS (ssh_conn w) True) [] @ nl)
                       else None)
                      = Inr (code, out, err) \<longrightarrow>
                  fst (call_tool_ssh_execute SSH_HOSTS env (Some command) confirmed use_sudo w)
                    = format_result \<lparr>res_hostname = hn, res_command = command, exit_code = code,
                                      stdout = strip_prompt True out, stderr = err,
                                      success = (code = 0), used_sudo = True\<rparr>
                  \<and> contains (fst (call_tool_ssh_execute SSH_HOSTS env (Some command) confirmed use_sudo w))
                      ''Executed with: sudo''
                  \<and> fst (http_execute SSH_HOSTS env (Some command) confirmed use_sudo w)
                    = http_result \<lparr>res_hostname = hn, res_command = command, exit_code = code,
                                    stdout = strip_prompt True out, stderr = err,
                                    success = (code = 0), used_sudo = True\<rparr>))"
proof -
  have ne: "command \<noteq> []"
    using assms by (rule startswith_sudo_nonempty)
  have us: "True = (startswith (strip command) ''sudo'' \<or> use_sudo)"
    using assms by simp
  have line: "exec_line command True = command"
    using assms by (simp add: exec_line_def)
  have a: "call_tool_ssh_execute SSH_HOSTS env (Some command) confirmed use_sudo w
           = call_tool_ssh_execute SSH_HOSTS env (Some command) confirmed True w"
    using assms by (simp add: call_tool_ssh_execute_def Let_def)
  have b: "http_execute SSH_HOSTS env (Some command) confirmed use_sudo w
           = http_execute SSH_HOSTS env (Some command) confirmed True w"
    using assms by (simp add: http_execute_def Let_def)
  have c: "\<forall>r. fst (http_execute SSH_HOSTS env (Some command) confirmed use_sudo w) = http_result r
              \<longrightarrow> used_sudo r"
    using http_execute_result_is[of SSH_HOSTS env command confirmed use_sudo w] assms by simp
  have d: "\<forall>h l p. ExecCommand h l p \<in>
              set (new_events w (snd (http_execute SSH_HOSTS env (Some command) confirmed use_sudo w)))
              \<longrightarrow> p"
  proof (cases "confirmed \<or> \<not> is_destructive_command command")
    case False
    then show ?thesis
      using ne by (simp add: http_execute_def Let_def new_events_def)
  next
    case True
    show ?thesis
      unfolding http_execute_world[OF ne True]
      using execute_command_pty assms by fastforce
  qed
  have e: "\<forall>h l p. ExecCommand h l p \<in>
              set (new_events w (snd (call_tool_ssh_execute SSH_HOSTS env (Some command) confirmed use_sudo w)))
              \<longrightarrow> p"
  proof (cases "confirmed \<or> \<not> is_destructive_command command")
    case False
    then show ?thesis
      using ne by (simp add: call_tool_ssh_execute_def Let_def new_events_def)
  next
    case True
    show ?thesis
      unfolding call_tool_ssh_execute_world[OF ne True]
      using execute_command_pty assms by fastforce
  qed
  have f: "(\<exists>rest. new_events w (snd (call_tool_ssh_execute SSH_HOSTS env (Some command) confirmed use_sudo w))
                      = ExecCommand h command True # rest)
         \<and> (\<exists>rest. new_events w (snd (http_execute SSH_HOSTS env (Some command) confirmed use_sudo w))
                      = ExecCommand h command True # rest)
         \<and> (\<forall>code out err.
                  exec_fails env (trace w) h command True = None
                  \<and> exec_outcome env (trace w @ [ExecCommand h command True]) h command True
                      (if truthy (sudo_password_for SSH_HOSTS (ssh_conn w) True)
                       then Some (get_or (sudo_password_for SSH_HOSTS (ssh_conn w) True) [] @ nl)
                       else None)
                      = Inr (code, out, err) \<longrightarrow>
                  fst (call_tool_ssh_execute SSH_HOSTS env (Some command) confirmed use_sudo w)
                    = format_result \<lparr>res_hostname = hn, res_command = command, exit_code = code,
                                      stdout = strip_prompt True out, stderr = err,
                                      success = (code = 0), used_sudo = True\<rparr>
                  \<and> contains (fst (call_tool_ssh_execute SSH_HOSTS env (Some command) confirmed use_sudo w))
                      ''Executed with: sudo''
                  \<and> fst (http_execute SSH_HOSTS env (Some command) confirmed use_sudo w)
                    = http_result \<lparr>res_hostname = hn, res_command = command, exit_code = code,
                                    stdout = strip_prompt True out, stderr = err,
                                    success = (code = 0), used_sudo = True\<rparr>)"
    if gate: "confirmed \<or> \<not> is_destructive_command command"
      and conn: "client (ssh_conn w) = Some h" "hostname (ssh_conn w) = Some hn" "hn \<noteq> []"
    for h hn
  proof -
    note ev = handler_new_events[OF ne gate conn us, of SSH_HOSTS env, unfolded line]
    have res: "fst (call_tool_ssh_execute SSH_HOSTS env (Some command) confirmed use_sudo w)
                    = format_result \<lparr>res_hostname = hn, res_command = command, exit_code = code,
                                      stdout = strip_prompt True out, stderr = err,
                                      success = (code = 0), used_sudo = True\<rparr>
               \<and> contains (fst (call_tool_ssh_execute SSH_HOSTS env (Some command) confirmed use_sudo w))
                      ''Executed with: sudo''
               \<and> fst (http_execute SSH_HOSTS env (Some command) confirmed use_sudo w)
                    = http_result \<lparr>res_hostname = hn, res_command = command, exit_code = code,
                                    stdout = strip_prompt True out, stderr = err,
                                    success = (code = 0), used_sudo = True\<rparr>"
      if o: "exec_fails env (trace w) h command True = None"
            "exec_outcome env (trace w @ [ExecCommand h command True]) h command True
                      (if truthy (sudo_password_for SSH_HOSTS (ssh_conn w) True)
                       then Some (get_or (sudo_password_for SSH_HOSTS (ssh_conn w) True) [] @ nl)
                       else None)
                      = Inr (code, out, err)"
      for code out err
    proof -
      have r: "fst (execute_command env command (startswith (strip command) ''sudo'' \<or> use_sudo)
              (sudo_password_for SSH_HOSTS (ssh_conn w) (startswith (strip command) ''sudo'' \<or> use_sudo)) w)
            = Inr \<lparr>res_hostname = hn, res_command = command, exit_code = code,
                              stdout = strip_prompt True out, stderr = err,
                              success = (code = 0), used_sudo = True\<rparr>"
        unfolding us[symmetric]
        using o line
        by (simp add: execute_command_result[OF conn])
      have t: "fst (call_tool_ssh_execute SSH_HOSTS env (Some command) confirmed use_sudo w)
                    = format_result \<lparr>res_hostname = hn, res_command = command, exit_code = code,
                                      stdout = strip_prompt True out, stderr = err,
                                      success = (code = 0), used_sudo = True\<rparr>"
        by (rule call_tool_ssh_execute_result[OF ne gate r])
      have u: "fst (http_execute SSH_HOSTS env (Some command) confirmed use_sudo w)
                    = http_result \<lparr>res_hostname = hn, res_command = command, exit_code = code,
                                    stdout = strip_prompt True out, stderr = err,
                                    success = (code = 0), used_sudo = True\<rparr>"
        by (rule http_execute_result[OF ne gate r])
      have v: "contains (fst (call_tool_ssh_execute SSH_HOSTS env (Some command) confirmed use_sudo w))
                      ''Executed with: sudo''"
        unfolding t by (rule format_result_reports_sudo) simp
      show ?thesis using t u v by blast
    qed
    have x1: "\<exists>rest. new_events w (snd (call_tool_ssh_execute SSH_HOSTS env (Some command) confirmed use_sudo w))
                      = ExecCommand h command True # rest"
      using ev(2) by blast
    have x2: "\<exists>rest. new_events w (snd (http_execute SSH_HOSTS env (Some command) confirmed use_sudo w))
                      = ExecCommand h command True # rest"
      using ev(1) by blast
    show ?thesis
      using x1 x2 res by blast
  qed
  show ?thesis using a b c d e f by blast
qed

lemma example_session:
  "client (ssh_conn connected_world) = Some 0"
  "hostname (ssh_conn connected_world) = Some ''10.0.0.5''"
  "host_alias (ssh_conn connected_world) = Some ''vm1''"
  "trace connected_world = [NewClient 0, Connect 0 ''10.0.0.5'' 22 ''admin'' ''s3cret'']"
  by (simp_all add: connected_world_eq)

lemma example_secret:
  "sudo_password_for example_hosts (ssh_conn connected_world) True = Some ''s3cret''"
  by (simp add: sudo_password_for_def example_session example_hosts_def)

lemma example_remote_simps:
  "exec_fails example_remote t h l p = None"
  "exec_outcome example_remote t h l p d = Inr (0, [], [])"
  "connect_fails example_remote t h n q u s = None"
  by (simp_all add: example_remote_def)

text \<open>
  C5 on the example: \<open>sudo apt update\<close> with use_sudo = false on the session connected
  to vm1, through both handlers.
\<close>

theorem sudo_prefix_forces_sudo_witness:
  "startswith (strip ''sudo apt update'') ''sudo''
   \<and> http_execute example_hosts example_remote (Some ''sudo apt update'') False False connected_world
       = http_execute example_hosts example_remote (Some ''sudo apt update'') False True connected_world
   \<and> fst (http_execute example_hosts example_remote (Some ''sudo apt update'') False False connected_world)
       = http_result \<lparr>res_hostname = ''10.0.0.5'', res_command = ''sudo apt update'', exit_code = 0,
                       stdout = [], stderr = [], success = True, used_sudo = True\<rparr>
   \<and> fst (call_tool_ssh_execute example_hosts example_remote (Some ''sudo apt update'') False False connected_world)
       = ''Command: sudo apt update'' @ nl @ ''Host: 10.0.0.5'' @ nl @ ''Executed with: sudo'' @ nl @
         ''Exit Code: 0'' @ nl @ nl
   \<and> new_events connected_world
        (snd (call_tool_ssh_execute example_hosts example_remote (Some ''sudo apt update'') False False connected_world))
       = [ExecCommand 0 ''sudo apt update'' True, StdinWrite 0 (''s3cret'' @ nl)]
   \<and> new_events connected_world
        (snd (http_execute example_hosts example_remote (Some ''sudo apt update'') False False connected_world))
       = [ExecCommand 0 ''sudo apt update'' True, StdinWrite 0 (''s3cret'' @ nl)]"
proof -
  have p: "startswith (strip ''sudo apt update'') ''sudo''"
    by (rule example_sudo_prefix)
  have g: "''sudo apt update'' \<noteq> []" "False \<or> \<not> is_destructive_command ''sudo apt update''"
    using example_not_destructive by simp_all
  have hn: "''10.0.0.5'' \<noteq> []"
    by simp
  have us: "True = (startswith (strip ''sudo apt update'') ''sudo'' \<or> False)"
    using p by simp
  have line: "exec_line ''sudo apt update'' True = ''sudo apt update''"
    using p by (simp add: exec_line_def)
  have r: "fst (execute_command example_remote ''sudo apt update''
                  (startswith (strip ''sudo apt update'') ''sudo'' \<or> False)
                  (sudo_password_for example_hosts (ssh_conn connected_world)
                     (startswith (strip ''sudo apt update'') ''sudo'' \<or> False)) connected_world)
           = Inr \<lparr>res_hostname = ''10.0.0.5'', res_command = ''sudo apt update'', exit_code = 0,
                  stdout = strip_prompt True [], stderr = [], success = (0 = (0::int)), used_sudo = True\<rparr>"
    using p
    by (simp add: execute_command_result[OF example_session(1,2)] example_remote_simps)
  have s: "strip_prompt True [] = []"
    by (simp add: strip_prompt_def sudo_marker_def)
  have t: "format_result \<lparr>res_hostname = ''10.0.0.5'', res_command = ''sudo apt update'', exit_code = 0,
                  stdout = [], stderr = [], success = True, used_sudo = True\<rparr>
           = ''Command: sudo apt update'' @ nl @ ''Host: 10.0.0.5'' @ nl @ ''Executed with: sudo'' @ nl @
             ''Exit Code: 0'' @ nl @ nl"
    by code_simp
  note ev = handler_new_events[OF g example_session(1,2) hn us,
      where SSH_HOSTS = example_hosts and env = example_remote, unfolded line]
  show ?thesis
    using p sudo_prefix_forces_sudo[OF p, where SSH_HOSTS = example_hosts and env = example_remote
        and confirmed = False and use_sudo = False and w = connected_world]
      http_execute_result[OF g r] call_tool_ssh_execute_result[OF g r] s t ev
    by (simp add: example_secret example_remote_simps)
qed

text \<open>
  C6: in an escalated call that passes the gate on a connected session whose channel
  opens, the data written to the channel input is the password of the profile of the
  session's alias followed by a line feed, and nothing of the request (which carries no
  secret). When the session has no alias, or the alias has no profile or no non-empty
  password, the channel is opened all the same, nothing is written to its input, and the
  reply is the ordinary result made of what the remote side returns.
\<close>

theorem escalation_secret_source:
  assumes esc: "use_sudo \<or> startswith (strip command) ''sudo''"
      and ne: "command \<noteq> []"
      and gate: "confirmed \<or> \<not> is_destructive_command command"
      and conn: "client (ssh_conn w) = Some h" "hostname (ssh_conn w) = Some hn" "hn \<noteq> []"
      and opened: "exec_fails env (trace w) h (exec_line command True) True = None"
  shows "(\<forall>a config pw.
            host_alias (ssh_conn w) = Some a \<and> a \<noteq> [] \<and> SSH_HOSTS a = Some config
              \<and> cfg_password config = Some pw \<and> pw \<noteq> [] \<longrightarrow>
            new_events w (snd (http_execute SSH_HOSTS env (Some command) confirmed use_sudo w))
              = [ExecCommand h (exec_line command True) True, StdinWrite h (pw @ nl)]
            \<and> new_events w (snd (call_tool_ssh_execute SSH_HOSTS env (Some command) confirmed use_sudo w))
              = [ExecCommand h (exec_line command True) True, StdinWrite h (pw @ nl)])
       \<and> (host_alias (ssh_conn w) = None
            \<or> (\<exists>a. host_alias (ssh_conn w) = Some a
                  \<and> (a = [] \<or> SSH_HOSTS a = None
                      \<or> (\<exists>config. SSH_HOSTS a = Some config \<and> \<not> truthy (cfg_password config)))) \<longrightarrow>
            new_events w (snd (http_execute SSH_HOSTS env (Some command) confirmed use_sudo w))
              = [ExecCommand h (exec_line command True) True]
            \<and> new_events w (snd (call_tool_ssh_execute SSH_HOSTS env (Some command) confirmed use_sudo w))
              = [ExecCommand h (exec_line command True) True]
            \<and> (\<forall>code out err.
                  exec_outcome env (trace w @ [ExecCommand h (exec_line command True) True]) h
                    (exec_line command True) True None = Inr (code, out, err) \<longrightarrow>
                  fst (http_execute SSH_HOSTS env (Some command) confirmed use_sudo w)
                    = http_result \<lparr>res_hostname = hn, res_command = command, exit_code = code,
                                    stdout = strip_prompt True out, stderr = err,
                                    success = (code = 0), used_sudo = True\<rparr>))"
proof -
  have us: "True = (startswith (strip command) ''sudo'' \<or> use_sudo)"
    using esc by auto
  note ev = handler_new_events[OF ne gate conn us, of SSH_HOSTS env]
  have with_secret:
    "new_events w (snd (http_execute SSH_HOSTS env (Some command) confirmed use_sudo w))
              = [ExecCommand h (exec_line command True) True, StdinWrite h (pw @ nl)]
     \<and> new_events w (snd (call_tool_ssh_execute SSH_HOSTS env (Some command) confirmed use_sudo w))
              = [ExecCommand h (exec_line command True) True, StdinWrite h (pw @ nl)]"
    if "host_alias (ssh_conn w) = Some a" "a \<noteq> []" "SSH_HOSTS a = Some config"
       "cfg_password config = Some pw" "pw \<noteq> []" for a config pw
  proof -
    have "sudo_password_for SSH_HOSTS (ssh_conn w) True = Some pw"
      using that by (simp add: sudo_password_for_def)
    then show ?thesis
      using ev opened that(5) by simp
  qed
  have without_secret:
    "new_events w (snd (http_execute SSH_HOSTS env (Some command) confirmed use_sudo w))
              = [ExecCommand h (exec_line command True) True]
     \<and> new_events w (snd (call_tool_ssh_execute SSH_HOSTS env (Some command) confirmed use_sudo w))
              = [ExecCommand h (exec_line command True) True]
     \<and> (\<forall>code out err.
            exec_outcome env (trace w @ [ExecCommand h (exec_line command True) True]) h
              (exec_line command True) True None = Inr (code, out, err) \<longrightarrow>
            fst (http_execute SSH_HOSTS env (Some command) confirmed use_sudo w)
              = http_result \<lparr>res_hostname = hn, res_command = command, exit_code = code,
                              stdout = strip_prompt True out, stderr = err,
                              success = (code = 0), used_sudo = True\<rparr>)"
    if n: "host_alias (ssh_conn w) = None
            \<or> (\<exists>a. host_alias (ssh_conn w) = Some a
                  \<and> (a = [] \<or> SSH_HOSTS a = None
                      \<or> (\<exists>config. SSH_HOSTS a = Some config \<and> \<not> truthy (cfg_password config))))"
  proof -
    have np: "\<not> truthy (sudo_password_for SSH_HOSTS (ssh_conn w) True)"
      using n by (auto simp: sudo_password_for_def)
    have res: "fst (http_execute SSH_HOSTS env (Some command) confirmed use_sudo w)
              = http_result \<lparr>res_hostname = hn, res_command = command, exit_code = code,
                              stdout = strip_prompt True out, stderr = err,
                              success = (code = 0), used_sudo = True\<rparr>"
      if o: "exec_outcome env (trace w @ [ExecCommand h (exec_line command True) True]) h
              (exec_line command True) True None = Inr (code, out, err)" for code out err
    proof (rule http_execute_result[OF ne gate])
      show "fst (execute_command env command (startswith (strip command) ''sudo'' \<or> use_sudo)
              (sudo_password_for SSH_HOSTS (ssh_conn w) (startswith (strip command) ''sudo'' \<or> use_sudo)) w)
            = Inr \<lparr>res_hostname = hn, res_command = command, exit_code = code,
                              stdout = strip_prompt True out, stderr = err,
                              success = (code = 0), used_sudo = True\<rparr>"
        unfolding us[symmetric]
        using o np opened
        by (simp add: execute_command_result[OF conn])
    qed
    show ?thesis
      using ev np res by simp
  qed
  show ?thesis
    using with_secret without_secret by blast
qed

text \<open>
  C6 on the example: \<open>whoami\<close> with use_sudo = true on the session connected to vm1,
  and on the same session without its alias.
\<close>

theorem escalation_secret_source_witness:
  "(True \<or> startswith (strip ''whoami'') ''sudo'')
   \<and> new_events connected_world
        (snd (http_execute example_hosts example_remote (Some ''whoami'') False True connected_world))
       = [ExecCommand 0 ''sudo -S whoami'' True, StdinWrite 0 (''s3cret'' @ nl)]
   \<and> new_events connected_world
        (snd (call_tool_ssh_execute example_hosts example_remote (Some ''whoami'') False True connected_world))
       = [ExecCommand 0 ''sudo -S whoami'' True, StdinWrite 0 (''s3cret'' @ nl)]
   \<and> new_events (connected_world\<lparr>ssh_conn := (ssh_conn connected_world)\<lparr>host_alias := None\<rparr>\<rparr>)
        (snd (http_execute example_hosts example_remote (Some ''whoami'') False True
               (connected_world\<lparr>ssh_conn := (ssh_conn connected_world)\<lparr>host_alias := None\<rparr>\<rparr>)))
       = [ExecCommand 0 ''sudo -S whoami'' True]
   \<and> fst (http_execute example_hosts example_remote (Some ''whoami'') False True
             (connected_world\<lparr>ssh_conn := (ssh_conn connected_world)\<lparr>host_alias := None\<rparr>\<rparr>))
       = http_result \<lparr>res_hostname = ''10.0.0.5'', res_command = ''whoami'', exit_code = 0,
                       stdout = [], stderr = [], success = True, used_sudo = True\<rparr>"
proof -
  have esc: "True \<or> startswith (strip ''whoami'') ''sudo''"
    by simp
  have ne: "''whoami'' \<noteq> []"
    by simp
  have gate: "False \<or> \<not> is_destructive_command ''whoami''"
    using example_not_destructive by simp
  have hn: "''10.0.0.5'' \<noteq> []"
    by simp
  have line: "exec_line ''whoami'' True = ''sudo -S whoami''"
    using example_sudo_prefix by (simp add: exec_line_def)
  have s: "strip_prompt True [] = []"
    by (simp add: strip_prompt_def sudo_marker_def)
  have a: "new_events connected_world
        (snd (http_execute example_hosts example_remote (Some ''whoami'') False True connected_world))
       = [ExecCommand 0 ''sudo -S whoami'' True, StdinWrite 0 (''s3cret'' @ nl)]
     \<and> new_events connected_world
        (snd (call_tool_ssh_execute example_hosts example_remote (Some ''whoami'') False True connected_world))
       = [ExecCommand 0 ''sudo -S whoami'' True, StdinWrite 0 (''s3cret'' @ nl)]"
    using escalation_secret_source[OF esc ne gate example_session(1,2) hn example_remote_simps(1),
        where SSH_HOSTS = example_hosts]
    by (simp add: example_session example_hosts_def line)
  let ?w = "connected_world\<lparr>ssh_conn := (ssh_conn connected_world)\<lparr>host_alias := None\<rparr>\<rparr>"
  have c: "client (ssh_conn ?w) = Some 0" "hostname (ssh_conn ?w) = Some ''10.0.0.5''"
    by (simp_all add: example_session)
  have b: "new_events ?w
        (snd (http_execute example_hosts example_remote (Some ''whoami'') False True ?w))
       = [ExecCommand 0 ''sudo -S whoami'' True]
     \<and> fst (http_execute example_hosts example_remote (Some ''whoami'') False True ?w)
       = http_result \<lparr>res_hostname = ''10.0.0.5'', res_command = ''whoami'', exit_code = 0,
                       stdout = [], stderr = [], success = True, used_sudo = True\<rparr>"
    using escalation_secret_source[OF esc ne gate c hn example_remote_simps(1),
        where SSH_HOSTS = example_hosts]
    by (simp add: line s example_remote_simps)
  show ?thesis
    using a b by simp
qed

text \<open>
  C10: the detection is a prefix test on the trimmed text. Whenever it starts with the
  four characters \<open>sudo\<close>, a call with use_sudo = false that passes the gate on a
  connected session sends the command text unchanged on a pseudo-terminal channel, writes
  the resolved secret (if there is a non-empty one) and a line feed to its input, and
  reports \<open>used_sudo\<close> in its result.
\<close>

theorem sudo_prefix_is_raw:
  assumes pre: "startswith (strip command) ''sudo''"
      and gate: "confirmed \<or> \<not> is_destructive_command command"
      and conn: "client (ssh_conn w) = Some h" "hostname (ssh_conn w) = Some hn" "hn \<noteq> []"
      and opened: "exec_fails env (trace w) h command True = None"
  shows "(\<forall>pw. sudo_password_for SSH_HOSTS (ssh_conn w) True = Some pw \<and> pw \<noteq> [] \<longrightarrow>
            new_events w (snd (http_execute SSH_HOSTS env (Some command) confirmed False w))
              = [ExecCommand h command True, StdinWrite h (pw @ nl)]
            \<and> new_events w (snd (call_tool_ssh_execute SSH_HOSTS env (Some command) confirmed False w))
              = [ExecCommand h command True, StdinWrite h (pw @ nl)])
       \<and> (\<not> truthy (sudo_password_for SSH_HOSTS (ssh_conn w) True) \<longrightarrow>
            new_events w (snd (http_execute SSH_HOSTS env (Some command) confirmed False w))
              = [ExecCommand h command True]
            \<and> new_events w (snd (call_tool_ssh_execute SSH_HOSTS env (Some command) confirmed False w))
              = [ExecCommand h command True])
       \<and> (\<forall>r. fst (http_execute SSH_HOSTS env (Some command) confirmed False w) = http_result r
              \<longrightarrow> used_sudo r \<and> res_command r = command)"
proof -
  have ne: "command \<noteq> []"
    using pre by (rule startswith_sudo_nonempty)
  have us: "True = (startswith (strip command) ''sudo'' \<or> False)"
    using pre by simp
  have line: "exec_line command True = command"
    using pre by (simp add: exec_line_def)
  note ev = handler_new_events[OF ne gate conn us, of SSH_HOSTS env, unfolded line]
  have r: "\<forall>r. fst (http_execute SSH_HOSTS env (Some command) confirmed False w) = http_result r
              \<longrightarrow> used_sudo r \<and> res_command r = command"
    using http_execute_result_is[of SSH_HOSTS env command confirmed False w] pre by simp
  show ?thesis
    using ev opened r by simp
qed

text \<open>
  C10 on the examples \<open>sudoedit /etc/hosts\<close> and \<open>sudo-helper\<close>, where \<open>sudo\<close> is not
  a word of its own.
\<close>

theorem sudo_prefix_is_raw_witness:
  "startswith (strip ''sudoedit /etc/hosts'') ''sudo''
   \<and> startswith (strip ''sudo-helper'') ''sudo''
   \<and> new_events connected_world
        (snd (http_execute example_hosts example_remote (Some ''sudoedit /etc/hosts'') False False connected_world))
       = [ExecCommand 0 ''sudoedit /etc/hosts'' True, StdinWrite 0 (''s3cret'' @ nl)]
   \<and> new_events connected_world
        (snd (call_tool_ssh_execute example_hosts example_remote (Some ''sudo-helper'') False False connected_world))
       = [ExecCommand 0 ''sudo-helper'' True, StdinWrite 0 (''s3cret'' @ nl)]"
proof -
  have p1: "startswith (strip ''sudoedit /etc/hosts'') ''sudo''"
    by (rule example_sudo_prefix)
  have p2: "startswith (strip ''sudo-helper'') ''sudo''"
    by (rule example_sudo_prefix)
  have g1: "False \<or> \<not> is_destructive_command ''sudoedit /etc/hosts''"
    using example_not_destructive by simp
  have g2: "False \<or> \<not> is_destructive_command ''sudo-helper''"
    using example_not_destructive by simp
  have hn: "''10.0.0.5'' \<noteq> []"
    by simp
  show ?thesis
    using p1 p2
      sudo_prefix_is_raw[OF p1 g1 example_session(1,2) hn example_remote_simps(1),
        where SSH_HOSTS = example_hosts]
      sudo_prefix_is_raw[OF p2 g2 example_session(1,2) hn example_remote_simps(1),
        where SSH_HOSTS = example_hosts]
    by (simp add: example_secret)
qed

end
